theory Spec2Isabelle
  imports Complex_Main "HOL-Library.Word"
begin

unbundle bit_operations_syntax

section \<open>Bytes, samples and stdio streams\<close>

text \<open>
  The embedding follows \<^verbatim>\<open>src/pcmio.c\<close>, \<^verbatim>\<open>src/pcmio.h\<close> and \<^verbatim>\<open>src/klustio.cc\<close>.
  The host is little-endian and LP64, so \<^verbatim>\<open>sexconv16\<close>, \<^verbatim>\<open>sexconv32\<close> and
  \<^verbatim>\<open>sexconv16_array\<close> are the identity (the \<^verbatim>\<open>#else\<close> branch of the source) and the
  \<^verbatim>\<open>VMS\<close> record-size words are not written. C \<^verbatim>\<open>int\<close> and \<^verbatim>\<open>long\<close> variables that hold
  entry numbers, sample counts and file offsets are mathematical integers; where the
  source reads a value from file bytes or narrows it, the width is written out.
\<close>

type_synonym byte = "8 word"
type_synonym sample = "16 word"

text \<open>
  A \<^verbatim>\<open>FILE *\<close>: the bytes of the file, the file position, and the end-of-file and
  error indicators.
\<close>

record stream =
  s_bytes :: "byte list"
  s_pos :: nat
  s_eof :: bool
  s_err :: bool

definition ftell :: "stream \<Rightarrow> int" where
  "ftell s = int (s_pos s)"

text \<open>
  \<^verbatim>\<open>fseek(fp, off, SEEK_SET)\<close>: a negative target fails and leaves the stream as it is; a
  successful seek clears the end-of-file indicator. The source ignores the return value.
\<close>

definition fseek_set :: "int \<Rightarrow> stream \<Rightarrow> stream" where
  "fseek_set off s = (if off < 0 then s else s\<lparr>s_pos := nat off, s_eof := False\<rparr>)"

definition fseek_cur :: "int \<Rightarrow> stream \<Rightarrow> stream" where
  "fseek_cur d s = fseek_set (ftell s + d) s"

definition fseek_end :: "int \<Rightarrow> stream \<Rightarrow> stream" where
  "fseek_end d s = fseek_set (int (length (s_bytes s)) + d) s"

text \<open>
  \<^verbatim>\<open>fread(buf, n, 1, fp)\<close>: the flag says whether the whole item was read (return value 1);
  the bytes are those stored into the buffer, fewer than \<open>n\<close> on a short read, which
  also sets the end-of-file indicator.
\<close>

definition fread :: "nat \<Rightarrow> stream \<Rightarrow> bool \<times> byte list \<times> stream" where
  "fread n s =
     (let got = take n (drop (s_pos s) (s_bytes s)) in
      if length got = n then (True, got, s\<lparr>s_pos := s_pos s + n\<rparr>)
      else (False, got, s\<lparr>s_pos := s_pos s + length got, s_eof := True\<rparr>))"

text \<open>
  \<^verbatim>\<open>fwrite\<close> of a byte string at the current position: it overwrites what is there and
  extends the file (a gap left by a seek beyond the end reads as zero bytes).
\<close>

definition fwrite :: "byte list \<Rightarrow> stream \<Rightarrow> stream" where
  "fwrite bs s =
     (let p = s_pos s;
          old = s_bytes s @ replicate (p - length (s_bytes s)) 0
      in s\<lparr>s_bytes := take p old @ bs @ drop (p + length bs) old, s_pos := p + length bs\<rparr>)"

text \<open>Storing bytes into a fixed buffer at an offset, and reading a slice of a buffer.\<close>

definition overlay :: "byte list \<Rightarrow> nat \<Rightarrow> byte list \<Rightarrow> byte list" where
  "overlay buf off bs = take off buf @ bs @ drop (off + length bs) buf"

definition sub :: "byte list \<Rightarrow> nat \<Rightarrow> nat \<Rightarrow> byte list" where
  "sub buf off n = take n (drop off buf)"

subsection \<open>Little-endian fields\<close>

definition short_bytes :: "sample \<Rightarrow> byte list" where
  "short_bytes v = [ucast v, ucast (drop_bit 8 v)]"

definition bytes_short :: "byte \<Rightarrow> byte \<Rightarrow> sample" where
  "bytes_short lo hi = ucast lo OR push_bit 8 (ucast hi)"

text \<open>The memory of an array of shorts, and an array of shorts read out of memory.\<close>

definition data_bytes :: "sample list \<Rightarrow> byte list" where
  "data_bytes xs = concat (map short_bytes xs)"

fun bytes_data :: "byte list \<Rightarrow> sample list" where
  "bytes_data (lo # hi # bs) = bytes_short lo hi # bytes_data bs"
| "bytes_data bs = []"

text \<open>The low four bytes of a \<^verbatim>\<open>long\<close>, as \<^verbatim>\<open>putlong\<close> writes them.\<close>

definition long_bytes :: "int \<Rightarrow> byte list" where
  "long_bytes v = [word_of_int v, word_of_int (v div 256), word_of_int (v div 65536),
                   word_of_int (v div 16777216)]"

text \<open>An unsigned 16-bit and an unsigned 32-bit field read from a buffer.\<close>

definition rd16 :: "byte list \<Rightarrow> int" where
  "rd16 bs = (case bs of [b0, b1] \<Rightarrow> uint b0 + 256 * uint b1 | _ \<Rightarrow> 0)"

definition rd32 :: "byte list \<Rightarrow> int" where
  "rd32 bs = (case bs of [b0, b1, b2, b3] \<Rightarrow>
                uint b0 + 256 * uint b1 + 65536 * uint b2 + 16777216 * uint b3 | _ \<Rightarrow> 0)"

definition byte_of_char :: "char \<Rightarrow> byte" where
  "byte_of_char c = of_nat (of_char c)"

definition putshort :: "sample \<Rightarrow> stream \<Rightarrow> stream" where
  "putshort v fd = fwrite (short_bytes v) fd"

definition putlong :: "int \<Rightarrow> stream \<Rightarrow> stream" where
  "putlong v fd = fwrite (long_bytes v) fd"

definition putchars :: "byte list \<Rightarrow> nat \<Rightarrow> stream \<Rightarrow> stream" where
  "putchars p len fd = fwrite (take len p) fd"

definition putdata :: "sample list \<Rightarrow> stream \<Rightarrow> stream" where
  "putdata xs fd = fwrite (data_bytes xs) fd"

section \<open>The handles\<close>

text \<open>
  \<^verbatim>\<open>P2FILE\<close> (\<^verbatim>\<open>pcmio.h\<close>). The four directory caches are arrays of \<^verbatim>\<open>CACHESIZE\<close> = 500
  elements that the source indexes without a bounds check; they are total functions
  of the index here, and a pass of the indexing loop that stores outside the arrays has
  no defined result. Of the decoded header and segment structs only
  \<^verbatim>\<open>p2seg.recordwords\<close> is ever read back; the pointer members (\<^verbatim>\<open>initkey\<close>,
  \<^verbatim>\<open>matchkey\<close>, \<^verbatim>\<open>samples1\<close>, ...) always point at fixed offsets of \<^verbatim>\<open>hdrbuf\<close> and
  \<^verbatim>\<open>segbuf\<close>, so they are read from those buffers.
\<close>

record P2FILE =
  p2_fp :: stream
  currententry :: int
  lastentry :: int
  p2_type :: int
  entry_pos_cache :: "int \<Rightarrow> int"
  entry_size_cache :: "int \<Rightarrow> int"
  entry_sr_cache :: "int \<Rightarrow> int"
  entry_time_cache :: "int \<Rightarrow> 64 word"
  hdrbuf :: "byte list"
  segbuf :: "byte list"
  p2seg_recordwords :: int

datatype open_flags = O_RDONLY | O_WRONLY

text \<open>
  The calls a write handle has made to the segment writer, in order. This history is
  not a field of the source's struct: \<^verbatim>\<open>pcmseq2_write_hdr\<close>, \<^verbatim>\<open>pcmseq2_write_data\<close> and
  \<^verbatim>\<open>fclose\<close> each append their own invocation, and nothing reads it.
\<close>

datatype wcall = CallHdr | CallData "sample list" int | CallClose

text \<open>\<^verbatim>\<open>PCMFILE\<close> (\<^verbatim>\<open>pcmio.h\<close>), without the members of the mmap scratch buffer.\<close>

record PCMFILE =
  name :: string
  flags :: open_flags
  entry :: int
  samplerate :: int
  timestamp :: int
  microtimestamp :: int
  nentries :: int
  p2file :: "P2FILE option"
  pcmseq3_entrysize :: int
  pcmseq3_key :: "byte list"
  pcmseq3_cursamp :: int
  pcmseq3_poscache :: int
  entrystarted :: int
  outfp :: "stream option"
  calls :: "wcall list"

record pcmstat =
  st_entry :: int
  st_nsamples :: int
  st_samplerate :: int
  st_timestamp :: int
  st_microtimestamp :: int
  st_capabilities :: int
  st_nentries :: int

section \<open>Directory lookups\<close>

definition pcmseq2_seektoentry :: "P2FILE \<Rightarrow> int \<Rightarrow> int \<times> P2FILE" where
  "pcmseq2_seektoentry p2fp e =
     (if e \<le> 0 \<or> (lastentry p2fp \<noteq> -1 \<and> e > lastentry p2fp) then (-1, p2fp)
      else if entry_pos_cache p2fp e \<noteq> -1
        then (0, p2fp\<lparr>p2_fp := fseek_set (entry_pos_cache p2fp e) (p2_fp p2fp),
                       currententry := e\<rparr>)
      else (-1, p2fp))"

text \<open>
  \<^verbatim>\<open>pcmseq2_getinfo\<close> with all four result pointers supplied: the return value, then
  \<^verbatim>\<open>*entrysize_p\<close>, \<^verbatim>\<open>*samplerate_p\<close>, \<^verbatim>\<open>*datetime_p\<close> and \<^verbatim>\<open>*nentries_p\<close>.
\<close>

definition pcmseq2_getinfo :: "P2FILE \<Rightarrow> int \<Rightarrow> int \<times> int \<times> int \<times> 64 word \<times> int" where
  "pcmseq2_getinfo p2fp e =
     (if e \<le> 0 \<or> (lastentry p2fp \<noteq> -1 \<and> e > lastentry p2fp) then (-1, 0, 0, 0, 0)
      else if entry_size_cache p2fp e = -1 then (-1, 0, 0, 0, 0)
      else (0,
            entry_size_cache p2fp e,
            (if entry_sr_cache p2fp e \<noteq> -1 then entry_sr_cache p2fp e else 0),
            (if entry_time_cache p2fp e \<noteq> -1 then entry_time_cache p2fp e else 0),
            (if lastentry p2fp \<noteq> -1 then lastentry p2fp else 0)))"

section \<open>The streaming writer\<close>

text \<open>\<^verbatim>\<open>static short zeropad[2048]\<close>.\<close>

definition zeropad :: "sample list" where
  "zeropad = replicate 2048 0"

fun digits10 :: "nat \<Rightarrow> string" where
  "digits10 n =
     (if n < 10 then [char_of (48 + n)] else digits10 (n div 10) @ [char_of (48 + n mod 10)])"

text \<open>\<^verbatim>\<open>printf("%3d", n)\<close>.\<close>

definition fmt_3d :: "int \<Rightarrow> string" where
  "fmt_3d n =
     (let s = (if n < 0 then CHR ''-'' # digits10 (nat (- n)) else digits10 (nat n))
      in replicate (3 - length s) CHR '' '' @ s)"

text \<open>
  The \<^verbatim>\<open>init_key\<close> that \<^verbatim>\<open>pcmseq2_write_hdr\<close> builds in \<^verbatim>\<open>pcmseq3_key\<close>: blank, \<^verbatim>\<open>2\<close>, the
  first seven characters of the file name, blanks up to column 21, then the entry number
  and \<^verbatim>\<open>"   1"\<close>. The array has 29 bytes; an entry number of more than three characters
  makes \<^verbatim>\<open>sprintf\<close> run over its end in the source, and only the 28 bytes that are
  written to the file are kept here.
\<close>

definition init_key :: "string \<Rightarrow> int \<Rightarrow> byte list" where
  "init_key nm e =
     (let basename = take 7 nm;
          k = '' 2'' @ basename @ replicate (26 - length basename) CHR '' ''
      in map byte_of_char (take 28 (take 21 k @ fmt_3d e @ ''   1'')))"

text \<open>
  The 64-bit date of the entry header, from the handle's timestamp or, when that is 0,
  from the clock reading \<open>(tv_sec, tv_usec)\<close> of \<^verbatim>\<open>gettimeofday\<close>.
\<close>

definition lltime_of :: "int \<times> int \<Rightarrow> PCMFILE \<Rightarrow> 64 word" where
  "lltime_of curtime fp =
     (if timestamp fp = 0
      then (word_of_int (fst curtime) - 18000) * 10000000 + word_of_int (snd curtime) * 10
             + 0x007c95674beb4000
      else (word_of_int (timestamp fp) - 18000) * 10000000 + word_of_int (microtimestamp fp) * 10
             + 0x007c95674beb4000)"

definition lltime_bytes :: "64 word \<Rightarrow> byte list" where
  "lltime_bytes t = map (\<lambda>k. ucast (drop_bit (8 * k) t)) [0, 1, 2, 3, 4, 5, 6, 7]"

text \<open>
  \<^verbatim>\<open>pcmseq2_write_hdr\<close>. Writing into the in-memory stream always stores the bytes, so
  \<^verbatim>\<open>rc\<close> stays 0 and the result is -1 exactly when an indicator of the stream is set.
  The source is only called with an open stream; without one the model reports -1.
\<close>

definition pcmseq2_write_hdr :: "int \<times> int \<Rightarrow> PCMFILE \<Rightarrow> int \<times> PCMFILE" where
  "pcmseq2_write_hdr curtime fp =
     (case outfp fp of
        None \<Rightarrow> (-1, fp)
      | Some fd \<Rightarrow>
          (let key = init_key (name fp) (entry fp);
               fd1 = putchars key 28 (putshort 0x03 fd);
               fd2 = fwrite (lltime_bytes (lltime_of curtime fp)) fd1;
               fd3 = putlong (samplerate fp) (putlong 0x20f01 (putlong 0x1 (putlong 2048 fd2)))
           in ((if s_eof fd3 \<or> s_err fd3 then -1 else 0),
               fp\<lparr>pcmseq3_key := key[1 := byte_of_char CHR ''3''],
                  pcmseq3_cursamp := 2048,
                  pcmseq3_entrysize := 0,
                  outfp := Some fd3,
                  calls := calls fp @ [CallHdr]\<rparr>)))"

datatype segstate = FIRSTSEG | MIDDLESEG | LASTSEG

definition segstate_of :: "int \<Rightarrow> segstate" where
  "segstate_of cursamp =
     (if cursamp < 1005 then FIRSTSEG else if cursamp \<ge> 2026 then LASTSEG else MIDDLESEG)"

text \<open>
  The local variables of \<^verbatim>\<open>pcmseq2_write_data\<close> that its loop changes. \<^verbatim>\<open>ptr\<close> and
  \<^verbatim>\<open>nsamples\<close> are one list, the samples still to be written.
\<close>

record wstate =
  w_fd :: stream
  w_ptr :: "sample list"
  w_cursamp :: int
  w_state :: segstate
  w_recordwords :: int
  w_poscache :: int

text \<open>The \<^verbatim>\<open>switch (state)\<close> statement of the loop body.\<close>

definition write_switch :: "byte list \<Rightarrow> int \<Rightarrow> int \<Rightarrow> wstate \<Rightarrow> wstate" where
  "write_switch key entrysize lastsegment w =
     (let nsamples = int (length (w_ptr w)) in
      case w_state w of
        FIRSTSEG \<Rightarrow>
          (let togo = 1005 - w_cursamp w in
           if nsamples \<ge> togo
           then w\<lparr>w_fd := putshort 0x00 (putdata (take (nat togo) (w_ptr w)) (w_fd w)),
                  w_ptr := drop (nat togo) (w_ptr w),
                  w_cursamp := 1005, w_state := MIDDLESEG\<rparr>
           else w\<lparr>w_fd := putdata (w_ptr w) (w_fd w), w_ptr := [],
                  w_cursamp := w_cursamp w + nsamples\<rparr>)
      | MIDDLESEG \<Rightarrow>
          (let togo = 2026 - w_cursamp w in
           if nsamples \<ge> togo
           then w\<lparr>w_fd := putshort 0x02 (putdata (take (nat togo) (w_ptr w)) (w_fd w)),
                  w_ptr := drop (nat togo) (w_ptr w),
                  w_cursamp := 2026, w_state := LASTSEG\<rparr>
           else w\<lparr>w_fd := putdata (w_ptr w) (w_fd w), w_ptr := [],
                  w_cursamp := w_cursamp w + nsamples\<rparr>)
      | LASTSEG \<Rightarrow>
          (let togo = 2048 - w_cursamp w in
           if nsamples \<ge> togo
           then (let wa = (if togo > 0
                           then w\<lparr>w_fd := putdata (take (nat togo) (w_ptr w)) (w_fd w),
                                  w_ptr := drop (nat togo) (w_ptr w)\<rparr>
                           else w);
                     wb = wa\<lparr>w_cursamp := 0, w_state := FIRSTSEG\<rparr>
                 in if lastsegment = 0 \<or> w_ptr wb \<noteq> []
                    then (let rw = (if lastsegment \<noteq> 0 \<and> int (length (w_ptr wb)) \<le> 2048
                                    then entrysize else w_recordwords wb);
                              fd1 = putchars key 28 (putshort 0x01 (w_fd wb))
                          in wb\<lparr>w_fd := putlong rw fd1, w_recordwords := rw,
                                 w_poscache := ftell fd1\<rparr>)
                    else wb)
           else w\<lparr>w_fd := putdata (w_ptr w) (w_fd w), w_ptr := [],
                  w_cursamp := w_cursamp w + nsamples\<rparr>))"

text \<open>
  One pass through the body of \<^verbatim>\<open>while (nsamples > 0)\<close>: the switch, then the test that
  starts the zero padding of a closing entry.
\<close>

definition write_iter :: "byte list \<Rightarrow> int \<Rightarrow> int \<Rightarrow> wstate \<Rightarrow> wstate" where
  "write_iter key entrysize lastsegment w =
     (let w1 = write_switch key entrysize lastsegment w in
      if lastsegment \<noteq> 0 \<and> w_ptr w1 = [] \<and> w_cursamp w1 > 0
      then w1\<lparr>w_ptr := take (nat (2048 - w_cursamp w1)) zeropad\<rparr>
      else w1)"

subsection \<open>Termination of the writer's loop\<close>

text \<open>
  Each state has the sample count at which its sub-block is full, and the state and
  position that follow. The loop ends because a lexicographic measure falls in every
  pass: whether the state variable disagrees with the position or the position is 2048
  or more (at most two passes), then the samples left including the padding to
  come.
\<close>

definition seg_limit :: "segstate \<Rightarrow> int" where
  "seg_limit st = (case st of FIRSTSEG \<Rightarrow> 1005 | MIDDLESEG \<Rightarrow> 2026 | LASTSEG \<Rightarrow> 2048)"

definition seg_nextc :: "segstate \<Rightarrow> int" where
  "seg_nextc st = (case st of FIRSTSEG \<Rightarrow> 1005 | MIDDLESEG \<Rightarrow> 2026 | LASTSEG \<Rightarrow> 0)"

definition seg_next :: "segstate \<Rightarrow> segstate" where
  "seg_next st = (case st of FIRSTSEG \<Rightarrow> MIDDLESEG | MIDDLESEG \<Rightarrow> LASTSEG | LASTSEG \<Rightarrow> FIRSTSEG)"

definition mA :: "segstate \<Rightarrow> int \<Rightarrow> int \<Rightarrow> nat" where
  "mA st c n = (if st \<noteq> segstate_of c then (if n < seg_limit st - c then 2 else 1)
      else if c \<ge> 2048 then 1 else 0)"

definition mP :: "int \<Rightarrow> int \<Rightarrow> int" where
  "mP ls x = (if ls \<noteq> 0 then (- x) mod 2048 else 0)"

definition mB :: "int \<Rightarrow> int \<Rightarrow> int \<Rightarrow> nat" where
  "mB ls c n = nat (n + mP ls (c + n))"

lemma mP_bounds: "0 \<le> mP ls x" "mP ls x < 2048"
  by (simp_all add: mP_def)

lemma mP_shift: "mP ls (x - 2048) = mP ls x"
proof -
  have "- (x - 2048) = - x + 2048" by simp
  then show ?thesis by (simp only: mP_def mod_add_self2)
qed

lemma mP_small: "0 < x \<Longrightarrow> x < 2048 \<Longrightarrow> ls \<noteq> 0 \<Longrightarrow> mP ls x = 2048 - x"
  by (simp add: mP_def zmod_zminus1_eq_if)

lemma mP_2048: "mP ls 2048 = 0"
  by (simp add: mP_def)

lemma mA_next: "mA (seg_next st) (seg_nextc st) n = 0"
  by (cases st) (simp_all add: mA_def seg_next_def seg_nextc_def segstate_of_def)

lemma mA0: "mA st c n = 0 \<longleftrightarrow> st = segstate_of c \<and> c < 2048"
  by (simp add: mA_def)

lemma consistent_limit: "st = segstate_of c \<Longrightarrow> c < 2048 \<Longrightarrow> c < seg_limit st"
  by (simp add: segstate_of_def seg_limit_def split: if_splits)

lemma consistent_else: "st = segstate_of c \<Longrightarrow> 0 < n \<Longrightarrow> c + n < seg_limit st \<Longrightarrow> st = segstate_of (c + n)"
  by (simp add: segstate_of_def seg_limit_def split: if_splits)

lemma seg_limit_le: "seg_limit st \<le> 2048"
  by (cases st) (simp_all add: seg_limit_def)

lemma seg_nextc_cases: "seg_nextc st = seg_limit st \<or> (seg_nextc st = 0 \<and> seg_limit st = 2048)"
  by (cases st) (simp_all add: seg_limit_def seg_nextc_def)

text \<open>then-branch from a consistent state, no padding started\<close>
lemma decr_then_plain:
  assumes "0 < n" "c < seg_limit st" "seg_limit st - c \<le> n"
  shows "mB ls (seg_nextc st) (n - (seg_limit st - c)) < mB ls c n"
proof -
  have "mP ls (seg_nextc st + (n - (seg_limit st - c))) = mP ls (c + n)"
  proof -
    from seg_nextc_cases[of st] show ?thesis
    proof
      assume "seg_nextc st = seg_limit st"
      then have "seg_nextc st + (n - (seg_limit st - c)) = c + n" by simp
      then show ?thesis by (simp only:)
    next
      assume "seg_nextc st = 0 \<and> seg_limit st = 2048"
      then have "seg_nextc st + (n - (seg_limit st - c)) = (c + n) - 2048" by simp
      then show ?thesis by (simp only: mP_shift)
    qed
  qed
  then show ?thesis
    using assms mP_bounds[of ls "c + n"] by (simp add: mB_def)
qed

text \<open>padding started with c' remaining: the new count is 2048 - c'\<close>
lemma decr_pad:
  assumes "0 < n" "0 < c'" "c' < 2048" "ls \<noteq> 0"
  shows "mB ls c' (2048 - c') < nat (n + mP ls c')"
proof -
  have "mP ls (c' + (2048 - c')) = 0" by (simp add: mP_2048)
  then show ?thesis using assms by (simp add: mB_def mP_small)
qed

lemma decr_else_plain:
  assumes "0 < n"
  shows "mB ls (c + n) 0 < mB ls c n"
  using assms mP_bounds[of ls "c + n"] by (simp add: mB_def)

lemma write_switch_then:
  assumes "int (length (w_ptr w)) \<ge> seg_limit (w_state w) - w_cursamp w"
  shows "w_cursamp (write_switch k e ls w) = seg_nextc (w_state w)"
    and "w_state (write_switch k e ls w) = seg_next (w_state w)"
    and "w_ptr (write_switch k e ls w) = drop (nat (seg_limit (w_state w) - w_cursamp w)) (w_ptr w)"
  using assms
  by (cases "w_state w"; simp add: write_switch_def Let_def seg_limit_def seg_nextc_def seg_next_def)+

lemma write_switch_else:
  assumes "int (length (w_ptr w)) < seg_limit (w_state w) - w_cursamp w"
  shows "w_cursamp (write_switch k e ls w) = w_cursamp w + int (length (w_ptr w))"
    and "w_state (write_switch k e ls w) = w_state w"
    and "w_ptr (write_switch k e ls w) = []"
  using assms
  by (cases "w_state w"; simp add: write_switch_def Let_def seg_limit_def seg_nextc_def seg_next_def)+

definition wmeasA :: "wstate \<Rightarrow> nat" where
  "wmeasA w = mA (w_state w) (w_cursamp w) (int (length (w_ptr w)))"

definition wmeasB :: "int \<Rightarrow> wstate \<Rightarrow> nat" where
  "wmeasB ls w = mB ls (w_cursamp w) (int (length (w_ptr w)))"

lemma write_iter_decr:
  assumes ne: "w_ptr w \<noteq> []"
  shows "wmeasA (write_iter k e ls w) < wmeasA w \<or>
         (wmeasA (write_iter k e ls w) = wmeasA w \<and> wmeasB ls (write_iter k e ls w) < wmeasB ls w)"
proof -
  define st c n where "st = w_state w" and "c = w_cursamp w" and "n = int (length (w_ptr w))"
  define w1 where "w1 = write_switch k e ls w"
  define w2 where "w2 = write_iter k e ls w"
  define pad where "pad \<longleftrightarrow> ls \<noteq> 0 \<and> w_ptr w1 = [] \<and> w_cursamp w1 > 0"
  have npos: "n > 0" using ne by (simp add: n_def)
  have w2: "w2 = (if pad then w1\<lparr>w_ptr := take (nat (2048 - w_cursamp w1)) zeropad\<rparr> else w1)"
    by (simp add: w2_def w1_def pad_def write_iter_def Let_def)
  have A: "wmeasA w = mA st c n" and B: "wmeasB ls w = mB ls c n"
    by (simp_all add: wmeasA_def wmeasB_def st_def c_def n_def)
  have cs2: "w_cursamp w2 = w_cursamp w1" "w_state w2 = w_state w1"
    by (simp_all add: w2)
  have padlen: "int (length (w_ptr w2)) = 2048 - w_cursamp w1" if "pad" "w_cursamp w1 < 2048"
  proof -
    have "0 < w_cursamp w1" using that by (simp add: pad_def)
    then have "min (nat (2048 - w_cursamp w1)) 2048 = nat (2048 - w_cursamp w1)" by linarith
    then show ?thesis using that by (simp add: w2 zeropad_def)
  qed
  have "wmeasA w2 < wmeasA w \<or> (wmeasA w2 = wmeasA w \<and> wmeasB ls w2 < wmeasB ls w)"
  proof (cases "n \<ge> seg_limit st - c")
    case True
    then have h: "int (length (w_ptr w)) \<ge> seg_limit (w_state w) - w_cursamp w"
      by (simp add: n_def st_def c_def)
    have c1: "w_cursamp w1 = seg_nextc st" and s1: "w_state w1 = seg_next st"
      and p1: "w_ptr w1 = drop (nat (seg_limit st - c)) (w_ptr w)"
      using write_switch_then[OF h, of k e ls] by (simp_all add: w1_def st_def c_def)
    have A2: "wmeasA w2 = 0"
      by (simp add: wmeasA_def cs2 c1 s1 mA_next)
    show ?thesis
    proof (cases "mA st c n = 0")
      case False
      then show ?thesis using A2 A by simp
    next
      case A0: True
      then have cons: "st = segstate_of c" and clt: "c < 2048" by (simp_all add: mA0)
      have lim: "c < seg_limit st" using cons clt by (rule consistent_limit)
      have len1: "int (length (w_ptr w1)) = n - (seg_limit st - c)"
        using True lim by (simp add: p1 n_def)
      have "wmeasB ls w2 < mB ls c n"
      proof (cases pad)
        case False
        then have "w2 = w1" by (simp add: w2)
        then have "wmeasB ls w2 = mB ls (seg_nextc st) (n - (seg_limit st - c))"
          by (simp add: wmeasB_def c1 len1)
        then show ?thesis using decr_then_plain[OF npos lim True, of ls] by simp
      next
        case True
        then have r0: "n - (seg_limit st - c) = 0" and cpos: "0 < seg_nextc st" and ls: "ls \<noteq> 0"
          using len1 c1 by (simp_all add: pad_def)
        have nl: "seg_nextc st = seg_limit st" using seg_nextc_cases[of st] cpos by auto
        have c2048: "seg_nextc st < 2048" by (cases st) (simp_all add: seg_nextc_def)
        have cn: "c + n = seg_nextc st" using r0 nl by simp
        have "wmeasB ls w2 = mB ls (seg_nextc st) (2048 - seg_nextc st)"
          using padlen[OF True] c2048 by (simp add: wmeasB_def cs2 c1)
        moreover have "mB ls c n = nat (n + mP ls (seg_nextc st))"
          by (simp add: mB_def cn)
        ultimately show ?thesis using decr_pad[OF npos cpos c2048 ls] by simp
      qed
      then show ?thesis using A2 A B A0 by simp
    qed
  next
    case False
    then have h: "int (length (w_ptr w)) < seg_limit (w_state w) - w_cursamp w"
      by (simp add: n_def st_def c_def)
    have c1: "w_cursamp w1 = c + n" and s1: "w_state w1 = st" and p1: "w_ptr w1 = []"
      using write_switch_else[OF h, of k e ls] by (simp_all add: w1_def st_def c_def n_def)
    have c1lt: "c + n < seg_limit st" using False by simp
    have c2048: "c + n < 2048" using c1lt seg_limit_le[of st] by simp
    have Bdec: "wmeasB ls w2 < mB ls c n"
    proof (cases pad)
      case False
      then have "w2 = w1" by (simp add: w2)
      then have "wmeasB ls w2 = mB ls (c + n) 0" by (simp add: wmeasB_def c1 p1)
      then show ?thesis using decr_else_plain[OF npos, of ls c] by simp
    next
      case True
      then have cpos: "0 < c + n" and ls: "ls \<noteq> 0" using c1 by (simp_all add: pad_def)
      have "wmeasB ls w2 = mB ls (c + n) (2048 - (c + n))"
        using padlen[OF True] c2048 c1 by (simp add: wmeasB_def cs2)
      moreover have "mB ls c n = nat (n + mP ls (c + n))" by (simp add: mB_def)
      ultimately show ?thesis using decr_pad[OF npos cpos c2048 ls] by simp
    qed
    show ?thesis
    proof (cases "st = segstate_of c")
      case True
      then have "st = segstate_of (c + n)" using npos c1lt by (rule consistent_else)
      then have "wmeasA w2 = 0" using c2048 by (simp add: wmeasA_def cs2 c1 s1 mA0)
      then show ?thesis using Bdec A B by auto
    next
      case incons: False
      then have Aw: "mA st c n = 2" using False by (simp add: mA_def)
      show ?thesis
      proof (cases pad)
        case False
        then have "w2 = w1" by (simp add: w2)
        then have "wmeasA w2 \<le> 2" by (simp add: wmeasA_def mA_def)
        then show ?thesis using Bdec A B Aw by auto
      next
        case True
        have "int (length (w_ptr w2)) = 2048 - (c + n)"
          using padlen[OF True] c2048 c1 by simp
        then have "\<not> int (length (w_ptr w2)) < seg_limit (w_state w2) - w_cursamp w2"
          using seg_limit_le[of st] by (simp add: cs2 c1 s1)
        then have "wmeasA w2 \<le> 1" by (simp add: wmeasA_def mA_def)
        then show ?thesis using A Aw by simp
      qed
    qed
  qed
  then show ?thesis by (simp add: w2_def)
qed

function write_loop :: "byte list \<Rightarrow> int \<Rightarrow> int \<Rightarrow> wstate \<Rightarrow> wstate" where
  "write_loop key entrysize lastsegment w =
     (if w_ptr w = [] then w
      else write_loop key entrysize lastsegment (write_iter key entrysize lastsegment w))"
  by pat_completeness auto
termination
proof (relation "measures [\<lambda>(k, e, ls, w). wmeasA w, \<lambda>(k, e, ls, w). wmeasB ls w]")
  show "wf (measures [\<lambda>(k, e, ls, w). wmeasA w, \<lambda>(k, e, ls, w). wmeasB ls w])" by simp
next
  fix key :: "byte list" and entrysize lastsegment :: int and w :: wstate
  assume "w_ptr w \<noteq> []"
  from write_iter_decr[OF this, of key entrysize lastsegment]
  show "((key, entrysize, lastsegment, write_iter key entrysize lastsegment w),
         (key, entrysize, lastsegment, w))
        \<in> measures [\<lambda>(k, e, ls, w). wmeasA w, \<lambda>(k, e, ls, w). wmeasB ls w]"
    by auto
qed


text \<open>
  \<^verbatim>\<open>pcmseq2_write_data(fp, data, nsamples, lastsegment)\<close>; \<open>data\<close> is the list of the
  \<open>nsamples\<close> samples (empty for the closing call with \<^verbatim>\<open>NULL\<close>). First the values of
  the locals when the loop is entered: the state chosen from \<^verbatim>\<open>cursamp\<close>, and the zero
  padding as the data of a closing call without samples.
\<close>

definition write_start :: "PCMFILE \<Rightarrow> sample list \<Rightarrow> int \<Rightarrow> stream \<Rightarrow> wstate" where
  "write_start fp data lastsegment fd =
     (let cursamp = pcmseq3_cursamp fp in
      \<lparr>w_fd = fd,
       w_ptr = (if lastsegment \<noteq> 0 \<and> data = []
                then take (nat (2048 - cursamp)) zeropad else data),
       w_cursamp = cursamp,
       w_state = segstate_of cursamp,
       w_recordwords = 0,
       w_poscache = pcmseq3_poscache fp\<rparr>)"

definition pcmseq2_write_data :: "PCMFILE \<Rightarrow> sample list \<Rightarrow> int \<Rightarrow> int \<times> PCMFILE" where
  "pcmseq2_write_data fp data lastsegment =
     (case outfp fp of
        None \<Rightarrow> (-1, fp)
      | Some fd \<Rightarrow>
          (let entrysize = pcmseq3_entrysize fp + int (length data);
               w = write_loop (pcmseq3_key fp) entrysize lastsegment
                     (write_start fp data lastsegment fd);
               fd' = (if lastsegment \<noteq> 0
                      then fseek_end 0 (putlong entrysize (fseek_set (w_poscache w) (w_fd w)))
                      else w_fd w)
           in ((if s_eof fd' \<or> s_err fd' then -1 else 0),
               fp\<lparr>pcmseq3_entrysize := entrysize,
                  pcmseq3_poscache := w_poscache w,
                  pcmseq3_cursamp := w_cursamp w,
                  outfp := Some fd',
                  calls := calls fp @ [CallData data lastsegment]\<rparr>)))"

text \<open>A sequence of calls of \<^verbatim>\<open>pcmseq2_write_data\<close>, each with its samples and its flag.\<close>

fun write_chunks :: "PCMFILE \<Rightarrow> (sample list \<times> int) list \<Rightarrow> PCMFILE" where
  "write_chunks fp [] = fp"
| "write_chunks fp ((data, lastsegment) # cs) =
     write_chunks (snd (pcmseq2_write_data fp data lastsegment)) cs"

section \<open>The public operations of a handle\<close>

text \<open>
  \<^verbatim>\<open>pcmseq_open\<close> for writing, on the handle \<^verbatim>\<open>pcm_open\<close> has allocated: \<open>raw\<close> stands for
  the uninitialised \<^verbatim>\<open>malloc\<close> memory and supplies the members no one assigns
  (\<^verbatim>\<open>pcmseq3_cursamp\<close>, \<^verbatim>\<open>pcmseq3_poscache\<close>, ...); \<^verbatim>\<open>fopen(name, "w")\<close> gives an empty stream.
\<close>

definition pcmseq_open_w :: "PCMFILE \<Rightarrow> string \<Rightarrow> PCMFILE" where
  "pcmseq_open_w raw nm =
     raw\<lparr>name := nm, flags := O_WRONLY, entry := 1, samplerate := 20000, timestamp := 0,
         microtimestamp := 0, nentries := 0, p2file := None, entrystarted := 0,
         outfp := Some \<lparr>s_bytes = [], s_pos = 0, s_eof = False, s_err = False\<rparr>,
         calls := []\<rparr>"

definition pcmseq_write :: "int \<times> int \<Rightarrow> PCMFILE \<Rightarrow> sample list \<Rightarrow> int \<times> PCMFILE" where
  "pcmseq_write curtime fp buf =
     (if flags fp = O_WRONLY
      then (if outfp fp \<noteq> None
            then (let (rc, fp1) =
                        (if entrystarted fp = 0
                         then (let (r, f) = pcmseq2_write_hdr curtime fp
                               in (r, f\<lparr>entrystarted := 1\<rparr>))
                         else (0, fp))
                  in if rc = 0 then pcmseq2_write_data fp1 buf 0 else (rc, fp1))
            else (0, fp))
      else (-1, fp))"

definition pcmseq_seek :: "PCMFILE \<Rightarrow> int \<Rightarrow> int \<times> PCMFILE" where
  "pcmseq_seek fp e =
     (if flags fp = O_WRONLY \<and> outfp fp \<noteq> None
      then (let fp1 = (if entrystarted fp \<noteq> 0
                       then (snd (pcmseq2_write_data fp [] 1))\<lparr>entrystarted := 0\<rparr>
                       else fp)
            in (0, fp1\<lparr>entry := e\<rparr>))
      else if flags fp = O_RDONLY \<and> e > 0 \<and> e \<le> nentries fp
      then (0, fp\<lparr>entry := e\<rparr>)
      else (-1, fp))"

text \<open>
  \<^verbatim>\<open>pcmseq_close\<close>. Releasing the scratch buffer and \<^verbatim>\<open>pcmseq2_close\<close> leave nothing behind
  in read mode; in write mode the result also gives the bytes of the file as
  \<^verbatim>\<open>fclose\<close> leaves them.
\<close>

definition pcmseq_close :: "PCMFILE \<Rightarrow> PCMFILE \<times> byte list option" where
  "pcmseq_close fp =
     (let fp1 = (if flags fp = O_RDONLY then fp\<lparr>p2file := None\<rparr> else fp) in
      if flags fp1 = O_WRONLY
      then (let fp2 = (if entrystarted fp1 \<noteq> 0 then snd (pcmseq2_write_data fp1 [] 1) else fp1)
            in case outfp fp2 of
                 None \<Rightarrow> (fp2, None)
               | Some fd \<Rightarrow> (fp2\<lparr>outfp := None, calls := calls fp2 @ [CallClose]\<rparr>,
                             Some (s_bytes fd)))
      else (fp1, None))"

text \<open>
  \<^verbatim>\<open>pcmseq_stat\<close>. The date is an \<^verbatim>\<open>unsigned long long\<close>; the seconds are narrowed to the
  \<^verbatim>\<open>int\<close> member \<^verbatim>\<open>timestamp\<close>, the fraction goes to the \<^verbatim>\<open>long\<close> member.
\<close>

definition pcmseq_stat :: "PCMFILE \<Rightarrow> pcmstat \<Rightarrow> int \<times> pcmstat" where
  "pcmseq_stat fp buf =
     (let rd = (if flags fp = O_RDONLY
                then (case p2file fp of
                        None \<Rightarrow> None
                      | Some p2fp \<Rightarrow>
                          (case pcmseq2_getinfo p2fp (entry fp) of
                             (rc, entrysize, sr, datetime, nent) \<Rightarrow>
                               if rc \<noteq> 0 then Some (-1, buf)
                               else Some (0, buf\<lparr>
                                 st_entry := entry fp,
                                 st_nentries := nent,
                                 st_nsamples := entrysize,
                                 st_samplerate := sr,
                                 st_timestamp :=
                                   sint (ucast ((datetime - 0x007c95674beb4000) div 10000000 + 18000)
                                           :: 32 word),
                                 st_microtimestamp :=
                                   sint ((datetime - 0x007c95674beb4000) mod 10000000 div 10),
                                 st_capabilities := 3\<rparr>)))
                else None)
      in case rd of
           Some r \<Rightarrow> r
         | None \<Rightarrow>
             if flags fp = O_WRONLY
             then (0, buf\<lparr>st_entry := entry fp, st_nsamples := pcmseq3_entrysize fp,
                           st_samplerate := samplerate fp, st_capabilities := 3\<rparr>)
             else (-1, buf))"

text \<open>
  A run of public calls on a write handle: \<^verbatim>\<open>pcm_write\<close> with the clock reading of the
  moment and the samples, or \<^verbatim>\<open>pcm_seek\<close> to an entry.
\<close>

datatype pub_op = PubWrite "int \<times> int" "sample list" | PubSeek int

fun run_op :: "PCMFILE \<Rightarrow> pub_op \<Rightarrow> PCMFILE" where
  "run_op fp (PubWrite curtime buf) = snd (pcmseq_write curtime fp buf)"
| "run_op fp (PubSeek e) = snd (pcmseq_seek fp e)"

definition run_ops :: "PCMFILE \<Rightarrow> pub_op list \<Rightarrow> PCMFILE" where
  "run_ops fp ops = foldl run_op fp ops"

text \<open>
  Reading a call history: \<open>Some b\<close> when every call was in order so far, \<open>b\<close> telling
  whether an entry is open (its header written and not yet closed); \<open>None\<close> once a
  header was written into an open entry, samples or a closing call came without an open
  entry, or the stream was closed on an open entry.
\<close>

fun log_step :: "bool option \<Rightarrow> wcall \<Rightarrow> bool option" where
  "log_step None c = None"
| "log_step (Some started) CallHdr = (if started then None else Some True)"
| "log_step (Some started) (CallData d lastsegment) =
     (if started then Some (lastsegment = 0) else None)"
| "log_step (Some started) CallClose = (if started then None else Some False)"

definition log_state :: "wcall list \<Rightarrow> bool option" where
  "log_state cs = foldl log_step (Some False) cs"

section \<open>Sorting events into episodes (klustio.cc)\<close>

text \<open>
  The cluster file and the feature file are read with \<^verbatim>\<open>fscanf\<close> one number at a time.
  A text stream is its numbers and the index of the next one; both files are taken to
  hold numbers only. \<^verbatim>\<open>fscanf\<close> returns 1 and the number, or \<^verbatim>\<open>EOF\<close> when none is left,
  and then leaves the variable as it was.
\<close>

record tstream =
  t_toks :: "int list"
  t_pos :: nat

definition EOF :: int where
  "EOF = -1"

definition fscanf_d :: "tstream \<Rightarrow> int \<Rightarrow> int \<times> int \<times> tstream" where
  "fscanf_d f var =
     (if t_pos f < length (t_toks f)
      then (1, t_toks f ! t_pos f, f\<lparr>t_pos := Suc (t_pos f)\<rparr>)
      else (EOF, var, f))"

text \<open>
  The loop of \<^verbatim>\<open>getclusters\<close>: every pass scans a number and inserts \<^verbatim>\<open>clust\<close>, also the
  last pass, in which the scan fails. Each pass that goes on has consumed a number.
\<close>

function getclusters_loop :: "tstream \<Rightarrow> int \<Rightarrow> int \<Rightarrow> int set \<Rightarrow> int \<Rightarrow> int set \<times> int" where
  "getclusters_loop cfp rp clust clusters nlines =
     (if rp \<noteq> EOF
      then (case fscanf_d cfp clust of
              (rp', clust', cfp') \<Rightarrow>
                getclusters_loop cfp' rp' clust' (insert clust' clusters) (nlines + 1))
      else (clusters, nlines))"
  by pat_completeness auto
termination
  by (relation "measure (\<lambda>(cfp, rp, clust, clusters, nlines).
        (length (t_toks cfp) - t_pos cfp) + (if rp \<noteq> EOF then 1 else 0))")
     (auto simp: fscanf_d_def EOF_def split: if_splits)

declare getclusters_loop.simps [simp del]

text \<open>
  \<^verbatim>\<open>getclusters\<close>: rewinds, throws the first number away, collects the rest, and puts
  the position back. \<open>clust0\<close> is the uninitialised value of \<^verbatim>\<open>clust\<close>.
\<close>

definition getclusters :: "tstream \<Rightarrow> int \<Rightarrow> int set \<times> int \<times> tstream" where
  "getclusters cfp clust0 =
     (let fpos = t_pos cfp in
      case fscanf_d (cfp\<lparr>t_pos := 0\<rparr>) clust0 of
        (rp, clust, cfp1) \<Rightarrow>
          (case getclusters_loop cfp1 rp clust {} 0 of
             (clusters, nlines) \<Rightarrow> (clusters, nlines, cfp\<lparr>t_pos := fpos\<rparr>)))"

text \<open>With more than one cluster, cluster 0 is dropped, and then cluster 1.\<close>

definition drop_noise :: "int set \<Rightarrow> int set" where
  "drop_noise clusters =
     (let c1 = (if card clusters > 1 \<and> 0 \<in> clusters then clusters - {0} else clusters)
      in if card c1 > 1 \<and> 1 \<in> c1 then c1 - {1} else c1)"

text \<open>
  \<^verbatim>\<open>for (j = 0; j < nfeats && rp != EOF; j++) rp = fscanf(ffp, "%ld", &atime)\<close>.
\<close>

fun read_feats :: "nat \<Rightarrow> tstream \<Rightarrow> int \<Rightarrow> int \<Rightarrow> int \<times> int \<times> tstream" where
  "read_feats 0 ffp rp atime = (rp, atime, ffp)"
| "read_feats (Suc j) ffp rp atime =
     (if rp \<noteq> EOF
      then (case fscanf_d ffp atime of (rp', atime', ffp') \<Rightarrow> read_feats j ffp' rp' atime')
      else (rp, atime, ffp))"

text \<open>
  The loop that advances the episode:
  \<^verbatim>\<open>while ((nt>0) && (atime >= nt))\<close>. The result is \<open>(episode, et, nt)\<close>.
\<close>

function advance_episode :: "int list \<Rightarrow> int \<Rightarrow> int \<Rightarrow> int \<Rightarrow> int \<Rightarrow> int \<times> int \<times> int" where
  "advance_episode atimes atime episode et nt =
     (if nt > 0 \<and> atime \<ge> nt
      then advance_episode atimes atime (episode + 1) nt
             (if episode + 1 + 1 < int (length atimes) then atimes ! nat (episode + 1 + 1) else -1)
      else (episode, et, nt))"
  by pat_completeness auto
termination
  by (relation "measure (\<lambda>(atimes, atime, episode, et, nt).
        2 * nat (int (length atimes) - episode) + (if nt > 0 then 1 else 0))")
     auto

declare advance_episode.simps [simp del]

text \<open>The variables of the main loop of \<^verbatim>\<open>sort_unit_episode\<close>.\<close>

record estate =
  e_cfp :: tstream
  e_ffp :: tstream
  e_rp :: int
  e_atime :: int
  e_clust :: int
  e_episode :: int
  e_et :: int
  e_nt :: int
  e_uvec :: "int \<Rightarrow> int list list option"

text \<open>
  One pass of \<^verbatim>\<open>while (rp != EOF)\<close>: the features of an event, the last of them its
  time; its cluster; and, when the cluster is one of those kept, the episode advanced
  and the time since the start of the episode appended. The warning printed for a time
  before the episode is not modelled.
\<close>

definition episode_pass :: "int set \<Rightarrow> int list \<Rightarrow> nat \<Rightarrow> estate \<Rightarrow> estate" where
  "episode_pass clusters atimes nfeats s =
     (case read_feats nfeats (e_ffp s) (e_rp s) (e_atime s) of
        (rp1, atime, ffp') \<Rightarrow>
          (case fscanf_d (e_cfp s) (e_clust s) of
             (rp, clust, cfp') \<Rightarrow>
               (let s1 = s\<lparr>e_cfp := cfp', e_ffp := ffp', e_rp := rp, e_atime := atime,
                            e_clust := clust\<rparr>
                in if clust \<in> clusters
                   then (case advance_episode atimes atime (e_episode s1) (e_et s1) (e_nt s1) of
                           (episode, et, nt) \<Rightarrow>
                             s1\<lparr>e_episode := episode, e_et := et, e_nt := nt,
                                e_uvec := (e_uvec s1)(clust :=
                                  map_option (\<lambda>v. v[nat episode := v ! nat episode @ [atime - et]])
                                    (e_uvec s1 clust))\<rparr>)
                   else s1)))"

text \<open>A pass leaves in \<^verbatim>\<open>rp\<close> the result of scanning the cluster file.\<close>

lemma episode_pass_scan:
  "e_rp (episode_pass clusters atimes nfeats s) = fst (fscanf_d (e_cfp s) (e_clust s))"
  "e_cfp (episode_pass clusters atimes nfeats s) = snd (snd (fscanf_d (e_cfp s) (e_clust s)))"
  by (simp_all add: episode_pass_def Let_def split: prod.splits)

function episode_loop :: "int set \<Rightarrow> int list \<Rightarrow> nat \<Rightarrow> estate \<Rightarrow> estate" where
  "episode_loop clusters atimes nfeats s =
     (if e_rp s \<noteq> EOF then episode_loop clusters atimes nfeats (episode_pass clusters atimes nfeats s)
      else s)"
  by pat_completeness auto
termination
  by (relation "measure (\<lambda>(clusters, atimes, nfeats, s).
        (length (t_toks (e_cfp s)) - t_pos (e_cfp s)) + (if e_rp s \<noteq> EOF then 1 else 0))")
     (auto simp: episode_pass_scan fscanf_d_def EOF_def)

declare episode_loop.simps [simp del]

text \<open>
  \<^verbatim>\<open>sort_unit_episode(cfp, ffp, atimes, uvec)\<close>, giving \<open>uvec\<close>: for each cluster kept, the
  lists of event times of the episodes. \<open>clust0\<close> and \<open>atime0\<close> are the uninitialised
  values of the locals. The source reads \<^verbatim>\<open>atimes[0]\<close> and \<^verbatim>\<open>atimes[1]\<close> unguarded: with
  fewer than two episodes the result is \<open>None\<close>. A feature count that was not read or
  is negative counts as 0.
\<close>

definition sort_unit_episode ::
    "int list \<Rightarrow> int list \<Rightarrow> int list \<Rightarrow> int \<Rightarrow> int \<Rightarrow> (int \<Rightarrow> int list list option) option" where
  "sort_unit_episode ctoks ftoks atimes clust0 atime0 =
     (case fscanf_d \<lparr>t_toks = ctoks, t_pos = 0\<rparr> 0 of
        (rp0, nclusts, cfp1) \<Rightarrow>
          (case fscanf_d \<lparr>t_toks = ftoks, t_pos = 0\<rparr> 0 of
             (rp, nfeats, ffp1) \<Rightarrow>
               (case getclusters cfp1 clust0 of
                  (clusters0, nlines, cfp2) \<Rightarrow>
                    (let clusters = drop_noise clusters0;
                         nepisodes = length atimes;
                         uvec = (\<lambda>c. if c \<in> clusters then Some (replicate nepisodes []) else None)
                     in if nepisodes < 2 then None
                        else Some (e_uvec (episode_loop clusters atimes (nat nfeats)
                               \<lparr>e_cfp = cfp2, e_ffp = ffp1, e_rp = rp, e_atime = atime0,
                                e_clust = clust0, e_episode = 0, e_et = atimes ! 0,
                                e_nt = atimes ! 1, e_uvec = uvec\<rparr>))))))"

section \<open>The random-access reader\<close>

definition skipsegment :: "P2FILE \<Rightarrow> P2FILE" where
  "skipsegment p2fp =
     p2fp\<lparr>p2_fp := fseek_cur (if p2_type p2fp = 1 then 4140 else 4134) (p2_fp p2fp)\<rparr>"

text \<open>
  \<^verbatim>\<open>readentryhdr\<close>: the header is read into \<^verbatim>\<open>hdrbuf\<close> (from its third byte on for a type 2
  file); \<^verbatim>\<open>initkey\<close> is \<^verbatim>\<open>hdrbuf + 4\<close> and must begin with a blank and \<^verbatim>\<open>2\<close>.
\<close>

definition readentryhdr :: "P2FILE \<Rightarrow> int \<times> P2FILE" where
  "readentryhdr p2fp =
     (let type = p2_type p2fp in
      case fread (if type = 1 then 56 else 54) (p2_fp p2fp) of
        (ok, got, f) \<Rightarrow>
          (let buf = overlay (hdrbuf p2fp) (if type = 1 then 0 else 2) got;
               p2a = p2fp\<lparr>p2_fp := f, hdrbuf := buf\<rparr>
           in if \<not> ok then (-1, p2a)
              else if sub buf 4 2 \<noteq> [0x20, 0x32] then (-1, p2a)
              else (0, p2a)))"

text \<open>
  \<^verbatim>\<open>readsegment\<close>: the segment is read into \<^verbatim>\<open>segbuf\<close>; \<^verbatim>\<open>matchkey\<close> is \<^verbatim>\<open>segbuf + 4\<close>, must
  begin with a blank and \<^verbatim>\<open>3\<close>, and its next 16 bytes must be those of the \<^verbatim>\<open>initkey\<close>.
\<close>

definition readsegment :: "P2FILE \<Rightarrow> int \<times> P2FILE" where
  "readsegment p2fp =
     (let type = p2_type p2fp in
      case fread (if type = 1 then 4140 else 4134) (p2_fp p2fp) of
        (ok, got, f) \<Rightarrow>
          (let buf = overlay (segbuf p2fp) (if type = 1 then 0 else 2) got;
               p2a = p2fp\<lparr>p2_fp := f, segbuf := buf\<rparr>
           in if \<not> ok then (-1, p2a)
              else if sub buf 4 2 \<noteq> [0x20, 0x33] \<or> sub (hdrbuf p2fp) 6 16 \<noteq> sub buf 6 16
              then (-1, p2a)
              else (0, p2a\<lparr>p2seg_recordwords := rd32 (sub buf 32 4)\<rparr>)))"

text \<open>The three sample arrays of the segment in \<^verbatim>\<open>segbuf\<close>.\<close>

definition samples1 :: "P2FILE \<Rightarrow> sample list" where
  "samples1 p2fp = bytes_data (sub (segbuf p2fp) 36 (2 * 1005))"

definition samples2 :: "P2FILE \<Rightarrow> sample list" where
  "samples2 p2fp =
     bytes_data (sub (segbuf p2fp) (if p2_type p2fp = 1 then 2050 else 2048) (2 * 1021))"

definition samples3 :: "P2FILE \<Rightarrow> sample list" where
  "samples3 p2fp =
     bytes_data (sub (segbuf p2fp) (if p2_type p2fp = 1 then 4096 else 4092) (2 * 22))"

text \<open>
  \<^verbatim>\<open>peekcontrolword\<close>: the return value, the control word, and the handle. \<^verbatim>\<open>fread\<close>
  never returns -1, so the return value is always 0; after a short read the cleared
  buffer keeps its zeros and the stream is still moved back by the full size.
\<close>

definition peekcontrolword :: "P2FILE \<Rightarrow> int \<times> int \<times> P2FILE" where
  "peekcontrolword p2fp =
     (let type = p2_type p2fp;
          off = (if type = 1 then 0 else 2)
      in case fread (4 - off) (p2_fp p2fp) of
           (ok, got, f) \<Rightarrow>
             (let buf = overlay [0, 0, 0, 0] off got
              in (0, rd16 (sub buf 2 2),
                  p2fp\<lparr>p2_fp := fseek_cur (if type = 1 then -4 else -2) f\<rparr>)))"

text \<open>
  One sub-block of \<open>len\<close> samples starting at sample \<open>blockstart\<close> of the entry: the part
  of it inside \<open>[start, stop]\<close> is appended to the output (the caller's buffer up to
  \<^verbatim>\<open>curpos\<close>). A negative length handed to \<^verbatim>\<open>memcpy\<close> is undefined behaviour: \<open>None\<close>.
\<close>

definition copy_block ::
    "int \<Rightarrow> int \<Rightarrow> int \<Rightarrow> int \<Rightarrow> sample list \<Rightarrow> sample list \<Rightarrow> sample list option" where
  "copy_block start stop blockstart len samples buf =
     (let blockstop = blockstart + len - 1 in
      if blockstart \<le> stop \<and> blockstop \<ge> start
      then (let startpad = (if start > blockstart then start - blockstart else 0);
                endpad = (if stop < blockstop then blockstop - stop else 0);
                n = blockstop - blockstart - startpad - endpad + 1
            in if n < 0 then None
               else Some (buf @ take (nat n) (drop (nat startpad) samples)))
      else Some buf)"

text \<open>
  The locals of \<^verbatim>\<open>pcmseq2_read\<close> that its loop changes; \<open>r_buf\<close> is the output written so
  far, and \<^verbatim>\<open>curpos\<close> its length.
\<close>

record rstate =
  r_p2 :: P2FILE
  r_blockstart :: int
  r_buf :: "sample list"
  r_curentry :: int
  r_status :: int
  r_recordwords :: int

datatype rstep = Break rstate | Continue rstate | Undefined

text \<open>One pass of the \<^verbatim>\<open>for (;;)\<close> loop of \<^verbatim>\<open>pcmseq2_read\<close>.\<close>

definition read_iter :: "int \<Rightarrow> int \<Rightarrow> rstate \<Rightarrow> rstep" where
  "read_iter start stop r =
     (case peekcontrolword (r_p2 r) of
        (ret, controlword, p2a) \<Rightarrow>
          if ret = -1 then Break (r\<lparr>r_p2 := p2a\<rparr>)
          else if controlword = 0x03
          then Break (r\<lparr>r_p2 := p2a\<lparr>entry_pos_cache :=
                                      (entry_pos_cache p2a)(r_curentry r + 1 := ftell (p2_fp p2a))\<rparr>,
                        r_curentry := r_curentry r + 1,
                        r_status := 0,
                        r_recordwords := p2seg_recordwords p2a\<rparr>)
          else if controlword = 0x01
          then (if r_blockstart r > stop \<or> r_blockstart r + 2048 - 1 < start
                then Continue (r\<lparr>r_p2 := skipsegment p2a, r_blockstart := r_blockstart r + 2048\<rparr>)
                else (case readsegment p2a of
                        (rc, p2b) \<Rightarrow>
                          if rc = -1 then Break (r\<lparr>r_p2 := p2b\<rparr>)
                          else (case Option.bind
                                       (Option.bind
                                          (copy_block start stop (r_blockstart r) 1005
                                             (samples1 p2b) (r_buf r))
                                          (copy_block start stop (r_blockstart r + 1005) 1021
                                             (samples2 p2b)))
                                       (copy_block start stop (r_blockstart r + 1005 + 1021) 22
                                          (samples3 p2b)) of
                                  None \<Rightarrow> Undefined
                                | Some buf \<Rightarrow>
                                    Continue (r\<lparr>r_p2 := p2b, r_buf := buf,
                                                r_blockstart := r_blockstart r + 1005 + 1021 + 22\<rparr>))))
          else Break (r\<lparr>r_p2 := p2a\<rparr>))"

text \<open>
  The loop goes on only after a segment was skipped or read, which moves the file
  position forward, and only while there are bytes left to peek at.
\<close>

lemma fread_bytes:
  "fread n f = (ok, got, f') \<Longrightarrow> s_bytes f' = s_bytes f \<and> s_pos f' = s_pos f + length got
     \<and> got = take n (drop (s_pos f) (s_bytes f)) \<and> (ok \<longleftrightarrow> length got = n)"
  by (auto simp: fread_def Let_def split: if_splits)

lemma fseek_cur_bytes: "s_bytes (fseek_cur d f) = s_bytes f"
  by (simp add: fseek_cur_def fseek_set_def)

lemma fseek_cur_pos:
  "s_pos (fseek_cur d f) = (if int (s_pos f) + d < 0 then s_pos f else nat (int (s_pos f) + d))"
  by (simp add: fseek_cur_def fseek_set_def ftell_def)

lemma peekcontrolword_one:
  assumes "peekcontrolword p = (ret, 1, p')"
  shows "s_pos (p2_fp p) < length (s_bytes (p2_fp p))"
    and "s_pos (p2_fp p) \<le> s_pos (p2_fp p') + 3"
    and "s_bytes (p2_fp p') = s_bytes (p2_fp p)"
    and "p2_type p' = p2_type p"
proof -
  define k :: nat where "k = (if p2_type p = 1 then 4 else 2)"
  obtain ok got f where fr: "fread k (p2_fp p) = (ok, got, f)"
    by (cases "fread k (p2_fp p)")
  note fb = fread_bytes[OF fr]
  have p': "p' = p\<lparr>p2_fp := fseek_cur (- int k) f\<rparr>"
    and cw: "rd16 (sub (overlay [0, 0, 0, 0] (4 - k) got) 2 2) = 1"
    using assms fr by (auto simp: peekcontrolword_def Let_def k_def split: if_splits)
  have ne: "got \<noteq> []"
  proof
    assume "got = []"
    then have "rd16 (sub (overlay [0, 0, 0, 0] (4 - k) got) 2 2) = 0"
      by (simp add: overlay_def sub_def rd16_def k_def)
    then show False using cw by simp
  qed
  then show lt: "s_pos (p2_fp p) < length (s_bytes (p2_fp p))"
    using fb by (cases "s_pos (p2_fp p) < length (s_bytes (p2_fp p))") simp_all
  have klen: "length got \<le> k" "k \<le> 4" using fb by (simp_all add: k_def)
  show "s_pos (p2_fp p) \<le> s_pos (p2_fp p') + 3"
    using fb klen ne by (cases got) (auto simp add: p' fseek_cur_pos)
  show "s_bytes (p2_fp p') = s_bytes (p2_fp p)"
    using fb by (simp add: p' fseek_cur_bytes)
  show "p2_type p' = p2_type p" by (simp add: p')
qed

lemma skipsegment_pos:
  "s_pos (p2_fp (skipsegment p)) \<ge> s_pos (p2_fp p) + 4134"
  "s_bytes (p2_fp (skipsegment p)) = s_bytes (p2_fp p)"
  by (auto simp: skipsegment_def fseek_cur_pos fseek_cur_bytes nat_add_distrib)

lemma readsegment_pos:
  assumes "readsegment p = (rc, p')" "rc \<noteq> -1"
  shows "s_pos (p2_fp p') \<ge> s_pos (p2_fp p) + 4134"
    and "s_bytes (p2_fp p') = s_bytes (p2_fp p)"
proof -
  define k :: nat where "k = (if p2_type p = 1 then 4140 else 4134)"
  obtain ok got f where fr: "fread k (p2_fp p) = (ok, got, f)"
    by (cases "fread k (p2_fp p)")
  note fb = fread_bytes[OF fr]
  have "ok \<and> p2_fp p' = f"
    using assms fr by (auto simp: readsegment_def Let_def k_def split: if_splits)
  then show "s_pos (p2_fp p') \<ge> s_pos (p2_fp p) + 4134" and "s_bytes (p2_fp p') = s_bytes (p2_fp p)"
    using fb by (simp_all add: k_def)
qed

definition rmeasure :: "rstate \<Rightarrow> nat" where
  "rmeasure r = length (s_bytes (p2_fp (r_p2 r))) - s_pos (p2_fp (r_p2 r))"

lemma read_iter_Continue:
  assumes "read_iter start stop r = Continue r'"
  shows "rmeasure r' < rmeasure r"
proof -
  obtain ret cw p2a where pk: "peekcontrolword (r_p2 r) = (ret, cw, p2a)"
    by (cases "peekcontrolword (r_p2 r)")
  have cw: "cw = 1"
    using assms pk by (auto simp: read_iter_def split: if_splits prod.splits option.splits)
  note p1 = peekcontrolword_one[OF pk[unfolded cw]]
  have "s_pos (p2_fp (r_p2 r')) \<ge> s_pos (p2_fp p2a) + 4134
        \<and> s_bytes (p2_fp (r_p2 r')) = s_bytes (p2_fp p2a)"
  proof (cases "r_blockstart r > stop \<or> r_blockstart r + 2048 - 1 < start")
    case True
    then have "r_p2 r' = skipsegment p2a"
      using assms pk cw by (auto simp: read_iter_def split: if_splits)
    then show ?thesis using skipsegment_pos[of p2a] by simp
  next
    case False
    obtain rc p2b where rs: "readsegment p2a = (rc, p2b)" by (cases "readsegment p2a")
    have "rc \<noteq> -1 \<and> r_p2 r' = p2b"
      using assms pk cw False rs by (auto simp: read_iter_def split: if_splits option.splits)
    then show ?thesis using readsegment_pos[OF rs] by simp
  qed
  then have a: "s_pos (p2_fp (r_p2 r')) \<ge> s_pos (p2_fp p2a) + 4134"
    and b: "s_bytes (p2_fp (r_p2 r')) = s_bytes (p2_fp (r_p2 r))"
    using p1(3) by simp_all
  show ?thesis unfolding rmeasure_def b using a p1(1,2) by linarith
qed

function read_loop :: "int \<Rightarrow> int \<Rightarrow> rstate \<Rightarrow> rstate option" where
  "read_loop start stop r =
     (case read_iter start stop r of
        Break r' \<Rightarrow> Some r'
      | Undefined \<Rightarrow> None
      | Continue r' \<Rightarrow> read_loop start stop r')"
  by pat_completeness auto
termination
  by (relation "measure (\<lambda>(start, stop, r). rmeasure r)") (simp_all add: read_iter_Continue)

declare read_loop.simps [simp del]

text \<open>
  \<^verbatim>\<open>pcmseq2_read(p2fp, entry, start, stop, buf, numwritten_p, entrysize_p)\<close> with both
  result pointers supplied: the return value, the handle, what was written to \<^verbatim>\<open>buf\<close>,
  \<^verbatim>\<open>*numwritten_p\<close> and \<^verbatim>\<open>*entrysize_p\<close>; \<open>None\<close> for undefined behaviour.
\<close>

definition pcmseq2_read ::
    "P2FILE \<Rightarrow> int \<Rightarrow> int \<Rightarrow> int \<Rightarrow> (int \<times> P2FILE \<times> sample list \<times> int \<times> int) option" where
  "pcmseq2_read p2fp e start stop =
     (case pcmseq2_seektoentry p2fp e of
        (rc, p2a) \<Rightarrow>
          if rc = -1 then Some (-1, p2a, [], 0, 0)
          else (let curentry = currententry p2a;
                    startpos = ftell (p2_fp p2a)
                in case readentryhdr p2a of
                     (rc2, p2b) \<Rightarrow>
                       if rc2 = -1
                       then Some (-1, p2b\<lparr>p2_fp := fseek_set startpos (p2_fp p2b)\<rparr>, [], 0, 0)
                       else (case read_loop start stop
                                    \<lparr>r_p2 = p2b, r_blockstart = 0, r_buf = [],
                                     r_curentry = curentry, r_status = -1, r_recordwords = 0\<rparr> of
                               None \<Rightarrow> None
                             | Some r \<Rightarrow>
                                 (let fp = p2_fp (r_p2 r);
                                      r1 = (if s_eof fp
                                               \<or> (e = lastentry (r_p2 r) \<and> r_blockstart r > stop)
                                               \<or> (p2seg_recordwords (r_p2 r) \<noteq> 0 \<and> r_status r = -1)
                                            then r\<lparr>r_p2 := (r_p2 r)\<lparr>p2_fp := fseek_set startpos fp\<rparr>,
                                                   r_curentry := e,
                                                   r_status := 0,
                                                   r_recordwords := p2seg_recordwords (r_p2 r)\<rparr>
                                            else r)
                                  in if r_status r1 = -1
                                     then Some (-1,
                                                (r_p2 r1)\<lparr>p2_fp := fseek_set startpos (p2_fp (r_p2 r1))\<rparr>,
                                                r_buf r1, 0, 0)
                                     else Some (0, (r_p2 r1)\<lparr>currententry := r_curentry r1\<rparr>,
                                                r_buf r1, int (length (r_buf r1)),
                                                r_recordwords r1)))))"

section \<open>The backward indexer\<close>

text \<open>
  Arithmetic in C \<^verbatim>\<open>int\<close>: a result is reduced to 32 bits in two's complement (what the
  compiled code does where the C standard leaves signed overflow undefined), and
  division truncates towards zero.
\<close>

definition wrap32 :: "int \<Rightarrow> int" where
  "wrap32 x = (x + 2147483648) mod 4294967296 - 2147483648"

definition cdiv :: "int \<Rightarrow> int \<Rightarrow> int" where
  "cdiv a b = sgn a * sgn b * (\<bar>a\<bar> div \<bar>b\<bar>)"

text \<open>A 64-bit field read from a buffer, low byte first.\<close>

definition rd64 :: "byte list \<Rightarrow> 64 word" where
  "rd64 bs = foldr (\<lambda>b w. ucast b OR push_bit 8 w) bs 0"

text \<open>
  The test the indexer applies to the 36 bytes read at a would-be segment header, on
  the result of the \<^verbatim>\<open>fread\<close>: true when the read was short, the control word and the
  first two characters of the key are not \<^verbatim>\<open>01 00 20 33\<close>, or, in a type 1 file, the
  record size before them is not \<^verbatim>\<open>fc 07\<close>. \<^verbatim>\<open>seghdr\<close> is \<^verbatim>\<open>rawseghdr + 2\<close> in a type 1
  file and \<^verbatim>\<open>rawseghdr\<close> in a type 2 file.
\<close>

definition bad_seghdr :: "int \<Rightarrow> bool \<times> byte list \<times> stream \<Rightarrow> bool" where
  "bad_seghdr type r =
     (case r of (ok, rawseghdr, f) \<Rightarrow>
        \<not> ok
        \<or> sub rawseghdr (if type = 1 then 2 else 0) 4 \<noteq> [0x01, 0x00, 0x20, 0x33]
        \<or> (type = 1 \<and> sub rawseghdr 0 2 \<noteq> [0xfc, 0x07]))"

text \<open>The same for the 56 bytes read at a would-be entry header: \<^verbatim>\<open>03 00 20 32\<close>, \<^verbatim>\<open>36 00\<close>.\<close>

definition bad_enthdr :: "int \<Rightarrow> bool \<times> byte list \<times> stream \<Rightarrow> bool" where
  "bad_enthdr type r =
     (case r of (ok, rawenthdr, f) \<Rightarrow>
        \<not> ok
        \<or> sub rawenthdr (if type = 1 then 2 else 0) 4 \<noteq> [0x03, 0x00, 0x20, 0x32]
        \<or> (type = 1 \<and> sub rawenthdr 0 2 \<noteq> [0x36, 0x00]))"

text \<open>
  \<^verbatim>\<open>scantosegmentstart\<close>: the rescue for a file whose last segment is cut short. It takes
  the file type from the handle, reads the first entry header for its key, and looks
  for 14 bytes of the key in the \<^verbatim>\<open>segsize\<close> bytes before the position. A comparison
  that would run over the end of the bytes read finds nothing here.
\<close>

definition scantosegmentstart :: "P2FILE \<Rightarrow> int \<times> P2FILE" where
  "scantosegmentstart p2fp =
     (let type = p2_type p2fp;
          segsize = (if type = 1 then 4140 else 4134);
          startpos = ftell (p2_fp p2fp);
          p2a = p2fp\<lparr>p2_fp := fseek_set 0 (p2_fp p2fp)\<rparr>
      in if startpos < segsize
         then (-1, p2a\<lparr>p2_fp := fseek_set startpos (p2_fp p2a)\<rparr>)
         else (case readentryhdr p2a of
                 (rc, p2b) \<Rightarrow>
                   if rc = -1 then (-1, p2b\<lparr>p2_fp := fseek_set startpos (p2_fp p2b)\<rparr>)
                   else (case fread (nat segsize) (fseek_set (startpos - segsize) (p2_fp p2b)) of
                           (ok, got, f) \<Rightarrow>
                             (let p2c = p2b\<lparr>p2_fp := f, segbuf := overlay (segbuf p2b) 0 got\<rparr>
                              in if \<not> ok then (-1, p2c\<lparr>p2_fp := fseek_set startpos f\<rparr>)
                                 else (case find (\<lambda>i. sub (hdrbuf p2c) 6 14 = sub (segbuf p2c) i 14)
                                              [0..<nat segsize] of
                                         Some i \<Rightarrow>
                                           (0, p2c\<lparr>p2_fp := fseek_set
                                                  (startpos - segsize + int i - 2
                                                     - (if type = 1 then 4 else 2)) f\<rparr>)
                                       | None \<Rightarrow> (-1, p2c\<lparr>p2_fp := fseek_set startpos f\<rparr>))))))"

text \<open>
  \<^verbatim>\<open>while ((step > 0) && (step * segmentsize > prevpos)) step = step / 2;\<close>
\<close>

function reduce_step :: "int \<Rightarrow> int \<Rightarrow> int \<Rightarrow> int" where
  "reduce_step step segmentsize prevpos =
     (if step > 0 \<and> step * segmentsize > prevpos
      then reduce_step (cdiv step 2) segmentsize prevpos
      else step)"
  by pat_completeness auto
termination
  by (relation "measure (\<lambda>(step, segmentsize, prevpos). nat step)") (auto simp: cdiv_def)

declare reduce_step.simps [simp del]

text \<open>
  The \<^verbatim>\<open>for (;;)\<close> loop of \<^verbatim>\<open>pcmseq2_scantoentrystart\<close>, giving the stream and the step it
  ends with. With a segment size that is not positive it can run forever.
\<close>

partial_function (option) scan_loop :: "int \<Rightarrow> int \<Rightarrow> stream \<Rightarrow> int \<Rightarrow> (stream \<times> int) option" where
  "scan_loop type segmentsize fp step =
     (let prevpos = ftell fp;
          step1 = reduce_step step segmentsize prevpos;
          r = fread 36 (fseek_cur (-1 * step1 * segmentsize) fp)
      in if bad_seghdr type r
         then (let fp1 = fseek_set prevpos (snd (snd r));
                   step2 = cdiv step1 2
               in if step2 > 0 then scan_loop type segmentsize fp1 step2
                  else if step2 = 0 then Some (fp1, step2)
                  else scan_loop type segmentsize fp1 step2)
         else (let fp1 = fseek_cur (0 - 36) (snd (snd r))
               in if step1 = 0 then Some (fp1, step1)
                  else scan_loop type segmentsize fp1 step1))"

text \<open>
  \<^verbatim>\<open>pcmseq2_scantoentrystart(fp, type, segmentsize, entryhdrsize)\<close>: the return value and
  the stream.
\<close>

definition pcmseq2_scantoentrystart ::
    "stream \<Rightarrow> int \<Rightarrow> int \<Rightarrow> int \<Rightarrow> (int \<times> stream) option" where
  "pcmseq2_scantoentrystart fp type segmentsize entryhdrsize =
     (let r = fread 36 fp in
      if bad_seghdr type r then Some (-1, snd (snd r))
      else (case scan_loop type segmentsize (fseek_cur (0 - 36) (snd (snd r))) 256 of
              None \<Rightarrow> None
            | Some (fp1, step) \<Rightarrow>
                Some (0, if step = 0 then fseek_cur (-1 * entryhdrsize) fp1 else fp1)))"

text \<open>
  The segment count the indexer takes from a usable \<^verbatim>\<open>recordwords\<close>,
  \<^verbatim>\<open>(recordwords + segmentsamples - 1) / segmentsamples\<close>, and the seek to the start of the
  entry that follows from it.
\<close>

definition entrysegments_of :: "int \<Rightarrow> int" where
  "entrysegments_of recordwords = cdiv (wrap32 (recordwords + 2048 - 1)) 2048"

definition seek_entry_start :: "int \<Rightarrow> int \<Rightarrow> stream \<Rightarrow> stream" where
  "seek_entry_start type recordwords fp =
     (let entryhdrsize = (if type = 1 then 56 else 54);
          segmentsize = (if type = 1 then 4140 else 4134);
          entrysegments = entrysegments_of recordwords;
          deltapos = wrap32 (segmentsize - 36 - entrysegments * segmentsize - entryhdrsize)
      in fseek_cur deltapos fp)"

text \<open>
  The part of a pass of the indexing loop after a valid last-segment header was read
  (\<^verbatim>\<open>rawseghdr\<close>, the stream just behind it): the number of samples to record and the
  stream at the would-be start of the entry, or the stream alone when the scan for the
  start of the entry failed.
\<close>

definition idx_locate :: "int \<Rightarrow> byte list \<Rightarrow> stream \<Rightarrow> (stream + int \<times> stream) option" where
  "idx_locate type rawseghdr fp =
     (let entryhdrsize = (if type = 1 then 56 else 54);
          segmentsize = (if type = 1 then 4140 else 4134);
          recordwords = wrap32 (rd32 (sub rawseghdr (if type = 1 then 32 else 30) 4))
      in if recordwords = -1 \<or> recordwords = 0
         then (let fp1 = fseek_cur (0 - 36) fp;
                   tmppos = ftell fp1
               in case pcmseq2_scantoentrystart fp1 type segmentsize entryhdrsize of
                    None \<Rightarrow> None
                  | Some (rc, fp2) \<Rightarrow>
                      if rc = -1 then Some (Inl fp2)
                      else (let entrysegments =
                                  wrap32 (cdiv (tmppos + segmentsize - ftell fp2 - entryhdrsize)
                                            segmentsize)
                            in Some (Inr (wrap32 (entrysegments * 2048), fp2))))
         else Some (Inr (recordwords, seek_entry_start type recordwords fp)))"

text \<open>
  Reading and checking the entry header, with the second try one segment and 56 bytes
  before the position the first try ended at.
\<close>

definition idx_enthdr :: "int \<Rightarrow> stream \<Rightarrow> (byte list \<times> stream) option \<times> stream" where
  "idx_enthdr type fp =
     (let segmentsize = (if type = 1 then 4140 else 4134);
          r = fread 56 fp
      in if bad_enthdr type r
         then (let r2 = fread 56 (fseek_cur (segmentsize * -1 - 56) (snd (snd r)))
               in if bad_enthdr type r2 then (None, snd (snd r2))
                  else (Some (fst (snd r2), snd (snd r2)), snd (snd r2)))
         else (Some (fst (snd r), snd (snd r)), snd (snd r)))"

datatype idx_step = IdxFail P2FILE | IdxAgain P2FILE | IdxDone P2FILE | IdxNext P2FILE

text \<open>
  The directory caches are arrays of \<^verbatim>\<open>CACHESIZE\<close> elements (\<^verbatim>\<open>pcmio.h\<close>), and the indexing
  loop stores into them at \<^verbatim>\<open>curentry\<close> without a bounds check.
\<close>

definition CACHESIZE :: int where
  "CACHESIZE = 500"

text \<open>
  One pass of the \<^verbatim>\<open>for (;;)\<close> loop of \<^verbatim>\<open>pcmseq2_indexfile\<close> for the entry \<open>curentry\<close>
  (counted from the end of the file): failure, another try after the rescue scan, the
  first entry of the file reached, or on to the entry before. A pass has no defined
  result (\<open>None\<close>) when the scan for the start of the entry does not return, or when it
  comes to store into the caches at an index outside the arrays.
\<close>

definition idx_iter :: "int \<Rightarrow> P2FILE \<Rightarrow> int \<Rightarrow> idx_step option" where
  "idx_iter type p2fp curentry =
     (let segmentsize = (if type = 1 then 4140 else 4134);
          r = fread 36 (p2_fp p2fp)
      in if bad_seghdr type r
         then (if curentry = 1
               then (case scantosegmentstart (p2fp\<lparr>p2_fp := snd (snd r)\<rparr>) of
                       (rc, p2a) \<Rightarrow> Some (if rc = 0 then IdxAgain p2a else IdxFail p2a))
               else Some (IdxFail (p2fp\<lparr>p2_fp := snd (snd r)\<rparr>)))
         else (case idx_locate type (fst (snd r)) (snd (snd r)) of
                 None \<Rightarrow> None
               | Some (Inl fp1) \<Rightarrow> Some (IdxFail (p2fp\<lparr>p2_fp := fp1\<rparr>))
               | Some (Inr (recordwords, fp1)) \<Rightarrow>
                   (case idx_enthdr type fp1 of
                      (None, fp2) \<Rightarrow> Some (IdxFail (p2fp\<lparr>p2_fp := fp2\<rparr>))
                    | (Some (rawenthdr, fp2), fp3) \<Rightarrow>
                        if curentry < 0 \<or> CACHESIZE \<le> curentry then None else
                        (let enthdr = drop (if type = 1 then 2 else 0) rawenthdr;
                             p2a = p2fp\<lparr>p2_fp := fp2,
                                     entry_pos_cache := (entry_pos_cache p2fp)(curentry := ftell fp2 - 56),
                                     entry_size_cache := (entry_size_cache p2fp)(curentry := recordwords),
                                     entry_sr_cache := (entry_sr_cache p2fp)
                                        (curentry := wrap32 (rd32 (sub enthdr 50 4))),
                                     entry_time_cache := (entry_time_cache p2fp)
                                        (curentry := rd64 (sub enthdr 30 8))\<rparr>
                         in if entry_pos_cache p2a curentry = 0 then Some (IdxDone p2a)
                            else Some (IdxNext
                                   (p2a\<lparr>p2_fp := fseek_cur (0 - segmentsize - 56) fp2\<rparr>))))))"

text \<open>
  The loop: the return value so far (-1 on failure), the handle, and the number of
  entries found. On a damaged file it can run forever, and on a file of \<^verbatim>\<open>CACHESIZE\<close>
  entries or more it stores outside the caches; both are the result \<open>None\<close>.
\<close>

partial_function (option) idx_loop :: "int \<Rightarrow> P2FILE \<Rightarrow> int \<Rightarrow> (int \<times> P2FILE \<times> int) option" where
  "idx_loop type p2fp curentry =
     (case idx_iter type p2fp curentry of
        None \<Rightarrow> None
      | Some (IdxFail p) \<Rightarrow> Some (-1, p, curentry)
      | Some (IdxAgain p) \<Rightarrow> idx_loop type p curentry
      | Some (IdxDone p) \<Rightarrow> Some (0, p, curentry)
      | Some (IdxNext p) \<Rightarrow> idx_loop type p (curentry + 1))"

text \<open>Putting the directory, collected from the last entry backwards, into file order.\<close>

function swap_caches :: "P2FILE \<Rightarrow> int \<Rightarrow> int \<Rightarrow> P2FILE" where
  "swap_caches p tmpentry curentry =
     (if curentry > tmpentry
      then swap_caches
             (p\<lparr>entry_pos_cache := (entry_pos_cache p)
                   (tmpentry := entry_pos_cache p curentry, curentry := entry_pos_cache p tmpentry),
                entry_size_cache := (entry_size_cache p)
                   (tmpentry := entry_size_cache p curentry, curentry := entry_size_cache p tmpentry),
                entry_sr_cache := (entry_sr_cache p)
                   (tmpentry := entry_sr_cache p curentry, curentry := entry_sr_cache p tmpentry),
                entry_time_cache := (entry_time_cache p)
                   (tmpentry := entry_time_cache p curentry, curentry := entry_time_cache p tmpentry)\<rparr>)
             (tmpentry + 1) (curentry - 1)
      else p)"
  by pat_completeness auto
termination
  by (relation "measure (\<lambda>(p, tmpentry, curentry). nat (curentry - tmpentry))") auto

declare swap_caches.simps [simp del]

text \<open>
  \<^verbatim>\<open>pcmseq2_indexfile\<close>: the return value and the handle, or \<open>None\<close> when the loop has no
  defined result. The first byte chooses the type; an empty file has none.
\<close>

definition pcmseq2_indexfile :: "P2FILE \<Rightarrow> (int \<times> P2FILE) option" where
  "pcmseq2_indexfile p2fp =
     (let r = fread 1 (fseek_set 0 (p2_fp p2fp));
          tmpchr = fst (snd r);
          fp = snd (snd r)
      in if tmpchr \<noteq> [0x36] \<and> tmpchr \<noteq> [0x03] then Some (-1, p2fp\<lparr>p2_fp := fp\<rparr>)
         else (let type = (if tmpchr = [0x36] then 1 else 2);
                   segmentsize = (if type = 1 then 4140 else 4134)
               in case idx_loop type
                         (p2fp\<lparr>p2_fp := fseek_set (int (length (s_bytes fp)) - segmentsize) fp\<rparr>) 1 of
                    None \<Rightarrow> None
                  | Some (rc, p, numentries) \<Rightarrow>
                      if rc = -1 then Some (-1, p)
                      else Some (0, (swap_caches p 1 numentries)
                                      \<lparr>p2_type := type, lastentry := numentries\<rparr>)))"

text \<open>
  The reader's handle as \<^verbatim>\<open>pcmseq2_open\<close> sets it up before indexing (\<^verbatim>\<open>calloc\<close>, then the
  caches filled with -1, -1, 0 and 0).
\<close>

definition p2_calloc :: "stream \<Rightarrow> P2FILE" where
  "p2_calloc f =
     \<lparr>p2_fp = f, currententry = 1, lastentry = 0, p2_type = 0,
      entry_pos_cache = (\<lambda>i. -1), entry_size_cache = (\<lambda>i. -1),
      entry_sr_cache = (\<lambda>i. 0), entry_time_cache = (\<lambda>i. 0),
      hdrbuf = replicate 56 0, segbuf = replicate 4140 0, p2seg_recordwords = 0\<rparr>"

text \<open>
  \<^verbatim>\<open>pcmseq2_open\<close> on the bytes of an existing file: \<open>None\<close> when indexing has no
  defined result, \<open>Some None\<close> for \<^verbatim>\<open>NULL\<close>, and the indexed handle rewound otherwise.
\<close>

definition pcmseq2_open :: "byte list \<Rightarrow> P2FILE option option" where
  "pcmseq2_open bytes =
     (case pcmseq2_indexfile
             (p2_calloc \<lparr>s_bytes = bytes, s_pos = 0, s_eof = False, s_err = False\<rparr>) of
        None \<Rightarrow> None
      | Some (rc, p2fp) \<Rightarrow>
          Some (if rc = 0 then Some (p2fp\<lparr>p2_fp := fseek_set 0 (p2_fp p2fp)\<rparr>) else None))"

(*MODEL-END*)

section \<open>Concrete handles and files of the examples\<close>

definition empty_stream :: stream where
  "empty_stream = \<lparr>s_bytes = [], s_pos = 0, s_eof = False, s_err = False\<rparr>"

text \<open>A handle and a stat buffer with every member zero.\<close>

definition pcm_raw :: PCMFILE where
  "pcm_raw = \<lparr>name = [], flags = O_RDONLY, entry = 0, samplerate = 0, timestamp = 0,
     microtimestamp = 0, nentries = 0, p2file = None, pcmseq3_entrysize = 0, pcmseq3_key = [],
     pcmseq3_cursamp = 0, pcmseq3_poscache = 0, entrystarted = 0, outfp = None, calls = []\<rparr>"

definition stat_raw :: pcmstat where
  "stat_raw = \<lparr>st_entry = 0, st_nsamples = 0, st_samplerate = 0, st_timestamp = 0,
     st_microtimestamp = 0, st_capabilities = 0, st_nentries = 0\<rparr>"

text \<open>The directory of a file with one entry of 3000 samples at offset 0, dated \<open>t\<close>.\<close>

definition one_entry_dir :: "64 word \<Rightarrow> P2FILE" where
  "one_entry_dir t = (p2_calloc empty_stream)
      \<lparr>lastentry := 1, entry_pos_cache := (\<lambda>i. -1)(1 := 0),
       entry_size_cache := (\<lambda>i. -1)(1 := 3000), entry_time_cache := (\<lambda>i. 0)(1 := t)\<rparr>"

text \<open>
  A directory of two entries over a file of 200 zero bytes: entry 2 is listed at offset
  100, where no entry header is.
\<close>

definition two_entry_dir :: P2FILE where
  "two_entry_dir =
     (p2_calloc \<lparr>s_bytes = replicate 200 0, s_pos = 0, s_eof = False, s_err = False\<rparr>)
       \<lparr>lastentry := 2, p2_type := 2,
        entry_pos_cache := (\<lambda>i. -1)(1 := 0, 2 := 100),
        entry_size_cache := (\<lambda>i. -1)(1 := 10, 2 := 10)\<rparr>"

definition stream_at :: "byte list \<Rightarrow> nat \<Rightarrow> stream" where
  "stream_at bytes pos = \<lparr>s_bytes = bytes, s_pos = pos, s_eof = False, s_err = False\<rparr>"

definition seghdr_with :: "byte list \<Rightarrow> byte list" where
  "seghdr_with field = [0x01, 0x00, 0x20, 0x33] @ replicate 26 0 @ field @ [0, 0]"

text \<open>
  A type 2 file of two entries of one segment each, with the framing the indexer checks: an
  entry header starts \<^verbatim>\<open>03 00 20 32\<close>, a segment starts \<^verbatim>\<open>01 00 20 33\<close>, carries its
  \<^verbatim>\<open>recordwords\<close> field at offset 30 and the control words \<^verbatim>\<open>00 00\<close> and \<^verbatim>\<open>02 00\<close> between
  its blocks of 1005, 1021 and 22 samples. The first entry records 2048 samples, all zero
  but samples 10 and 11, whose four bytes are \<open>mark\<close>; the last segment of the second entry
  has a \<^verbatim>\<open>recordwords\<close> field of 0.
\<close>

definition enthdr2 :: "byte list" where
  "enthdr2 = [0x03, 0x00, 0x20, 0x32] @ replicate 50 0"

definition seg2 :: "byte list \<Rightarrow> byte list \<Rightarrow> byte list" where
  "seg2 field mark = [0x01, 0x00, 0x20, 0x33] @ replicate 26 0 @ field
      @ replicate 20 0 @ mark @ replicate 1986 0 @ [0x00, 0x00]
      @ replicate 2042 0 @ [0x02, 0x00] @ replicate 44 0"

definition two_entry_file :: "byte list \<Rightarrow> byte list" where
  "two_entry_file mark = enthdr2 @ seg2 [0x00, 0x08, 0, 0] mark @ enthdr2 @ seg2 [0, 0, 0, 0] [0, 0, 0, 0]"


definition cx_file :: "byte list" where
  "cx_file = two_entry_file [0x01, 0x00, 0x20, 0x33]"

text \<open>
  A type 2 file of two entries, the first of four segments and 8192 samples, the second
  of one segment whose \<^verbatim>\<open>recordwords\<close> field is 0. Samples 10 and 11 of the second segment of
  the first entry are \<^verbatim>\<open>0x0001\<close>, \<^verbatim>\<open>0x3320\<close>; every other sample is zero.
\<close>

definition probe_file :: "byte list" where
  "probe_file = enthdr2 @ seg2 [0, 0, 0, 0] [0, 0, 0, 0] @ seg2 [0, 0, 0, 0] [0x01, 0x00, 0x20, 0x33]
      @ seg2 [0, 0, 0, 0] [0, 0, 0, 0] @ seg2 [0x00, 0x20, 0, 0] [0, 0, 0, 0]
      @ enthdr2 @ seg2 [0, 0, 0, 0] [0, 0, 0, 0]"

(*EXAMPLES-END*)

section \<open>Seeking to an entry\<close>

text \<open>
  C7. On a read-mode handle \<^verbatim>\<open>pcmseq_seek\<close> succeeds exactly for the entries 1 to
  \<^verbatim>\<open>nentries\<close>: entry 0 and entry \<^verbatim>\<open>nentries + 1\<close> are refused (the handle is returned
  as it was), and the last entry is accepted when the file has an entry. The directory
  lookup \<^verbatim>\<open>pcmseq2_seektoentry\<close> of an indexed file (every entry up to \<^verbatim>\<open>lastentry\<close> has a
  cached offset) has the same bounds in terms of \<^verbatim>\<open>lastentry\<close>.
\<close>

theorem seek_bounds:
  assumes "flags fp = O_RDONLY"
      and "lastentry p2fp \<noteq> -1"
      and "\<forall>i. 1 \<le> i \<and> i \<le> lastentry p2fp \<longrightarrow> entry_pos_cache p2fp i \<noteq> -1"
  shows "(fst (pcmseq_seek fp e) = 0 \<longleftrightarrow> 1 \<le> e \<and> e \<le> nentries fp)
       \<and> (fst (pcmseq_seek fp e) \<noteq> 0 \<longrightarrow> pcmseq_seek fp e = (-1, fp))
       \<and> fst (pcmseq_seek fp 0) = -1
       \<and> fst (pcmseq_seek fp (nentries fp + 1)) = -1
       \<and> (1 \<le> nentries fp \<longrightarrow> pcmseq_seek fp (nentries fp) = (0, fp\<lparr>entry := nentries fp\<rparr>))
       \<and> (fst (pcmseq2_seektoentry p2fp e) = 0 \<longleftrightarrow> 1 \<le> e \<and> e \<le> lastentry p2fp)
       \<and> fst (pcmseq2_seektoentry p2fp 0) = -1
       \<and> fst (pcmseq2_seektoentry p2fp (lastentry p2fp + 1)) = -1
       \<and> (1 \<le> lastentry p2fp \<longrightarrow> fst (pcmseq2_seektoentry p2fp (lastentry p2fp)) = 0)"
  using assms by (auto simp: pcmseq_seek_def pcmseq2_seektoentry_def)

theorem seek_bounds_witness:
  "fst (pcmseq_seek (pcm_raw\<lparr>nentries := 1\<rparr>) 0) = -1
   \<and> fst (pcmseq_seek (pcm_raw\<lparr>nentries := 1\<rparr>) 2) = -1
   \<and> fst (pcmseq_seek (pcm_raw\<lparr>nentries := 1\<rparr>) 1) = 0
   \<and> fst (pcmseq2_seektoentry (one_entry_dir 0) 0) = -1
   \<and> fst (pcmseq2_seektoentry (one_entry_dir 0) 2) = -1
   \<and> fst (pcmseq2_seektoentry (one_entry_dir 0) 1) = 0"
  using seek_bounds[of "pcm_raw\<lparr>nentries := 1\<rparr>" "one_entry_dir 0" 1]
  by (simp add: pcm_raw_def one_entry_dir_def p2_calloc_def)

section \<open>The timestamp reported by stat\<close>

text \<open>
  C8. For an indexed entry whose raw date is \<^verbatim>\<open>0x007c95674beb4000 + 50000000\<close>,
  \<^verbatim>\<open>pcmseq_stat\<close> succeeds and reports the timestamp 5 + 18000 seconds and the
  microsecond fraction 0.
\<close>

theorem stat_timestamp:
  assumes "flags fp = O_RDONLY" and "p2file fp = Some p2fp"
      and "0 < entry fp" and "entry fp \<le> lastentry p2fp"
      and "entry_size_cache p2fp (entry fp) \<noteq> -1"
      and "entry_time_cache p2fp (entry fp) = 0x007c95674beb4000 + 50000000"
  shows "fst (pcmseq_stat fp buf) = 0
       \<and> st_timestamp (snd (pcmseq_stat fp buf)) = 5 + 18000
       \<and> st_microtimestamp (snd (pcmseq_stat fp buf)) = 0"
  using assms by (simp add: pcmseq_stat_def pcmseq2_getinfo_def)

theorem stat_timestamp_witness:
  "fst (pcmseq_stat
      (pcm_raw\<lparr>entry := 1, p2file := Some (one_entry_dir (0x007c95674beb4000 + 50000000))\<rparr>)
      stat_raw) = 0
   \<and> st_timestamp (snd (pcmseq_stat
      (pcm_raw\<lparr>entry := 1, p2file := Some (one_entry_dir (0x007c95674beb4000 + 50000000))\<rparr>)
      stat_raw)) = 18005
   \<and> st_microtimestamp (snd (pcmseq_stat
      (pcm_raw\<lparr>entry := 1, p2file := Some (one_entry_dir (0x007c95674beb4000 + 50000000))\<rparr>)
      stat_raw)) = 0"
  using stat_timestamp[of "pcm_raw\<lparr>entry := 1, p2file := Some (one_entry_dir (0x007c95674beb4000 + 50000000))\<rparr>"
       "one_entry_dir (0x007c95674beb4000 + 50000000)" stat_raw]
  by (simp add: pcm_raw_def one_entry_dir_def p2_calloc_def)

section \<open>The writer's position within a segment\<close>

lemma seg_nextc_lt: "seg_nextc st < 2048" and seg_nextc_ge: "0 \<le> seg_nextc st"
  by (cases st; simp add: seg_nextc_def)+

lemma seg_next_of: "seg_next st = segstate_of (seg_nextc st)"
  by (cases st) (simp_all add: seg_next_def seg_nextc_def segstate_of_def)

lemma write_iter_cs:
  "w_cursamp (write_iter k e ls w) = w_cursamp (write_switch k e ls w)"
  "w_state (write_iter k e ls w) = w_state (write_switch k e ls w)"
  by (simp_all add: write_iter_def Let_def)

lemma write_iter_lt:
  assumes "w_ptr w \<noteq> [] \<or> w_cursamp w < 2048"
  shows "w_cursamp (write_iter k e ls w) < 2048"
proof (cases "int (length (w_ptr w)) \<ge> seg_limit (w_state w) - w_cursamp w")
  case True
  then show ?thesis by (simp add: write_iter_cs write_switch_then seg_nextc_lt)
next
  case False
  then have "w_cursamp (write_switch k e ls w) = w_cursamp w + int (length (w_ptr w))"
    by (simp add: write_switch_else)
  moreover have "w_cursamp w + int (length (w_ptr w)) < 2048"
    using False seg_limit_le[of "w_state w"] by simp
  ultimately show ?thesis by (simp add: write_iter_cs)
qed

lemma write_iter_ge:
  assumes "0 \<le> w_cursamp w"
  shows "0 \<le> w_cursamp (write_iter k e ls w)"
proof (cases "int (length (w_ptr w)) \<ge> seg_limit (w_state w) - w_cursamp w")
  case True
  then show ?thesis by (simp add: write_iter_cs write_switch_then seg_nextc_ge)
next
  case False
  then show ?thesis using assms by (simp add: write_iter_cs write_switch_else)
qed

lemma consistent_else0:
  "st = segstate_of c \<Longrightarrow> 0 \<le> n \<Longrightarrow> c + n < seg_limit st \<Longrightarrow> st = segstate_of (c + n)"
  by (simp add: segstate_of_def seg_limit_def split: if_splits)

lemma write_iter_state:
  assumes "w_state w = segstate_of (w_cursamp w)"
  shows "w_state (write_iter k e ls w) = segstate_of (w_cursamp (write_iter k e ls w))"
proof (cases "int (length (w_ptr w)) \<ge> seg_limit (w_state w) - w_cursamp w")
  case True
  then show ?thesis by (simp add: write_iter_cs write_switch_then seg_next_of)
next
  case False
  then have "w_state w = segstate_of (w_cursamp w + int (length (w_ptr w)))"
    using assms consistent_else0[of "w_state w" "w_cursamp w" "int (length (w_ptr w))"] by simp
  then show ?thesis using False by (simp add: write_iter_cs write_switch_else)
qed

definition winv :: "wstate \<Rightarrow> bool" where
  "winv w \<longleftrightarrow> w_state w = segstate_of (w_cursamp w) \<and> 0 \<le> w_cursamp w \<and> w_cursamp w \<le> 2048"

lemma write_iter_winv: "winv w \<Longrightarrow> winv (write_iter k e ls w)"
  unfolding winv_def
  using write_iter_state[of w k e ls] write_iter_ge[of w k e ls] write_iter_lt[of w k e ls]
  by (cases "w_ptr w = []"; cases "w_cursamp w < 2048") (auto simp: write_iter_def write_switch_def segstate_of_def Let_def)


lemma write_passes_winv: "winv w \<Longrightarrow> winv ((write_iter k e ls ^^ j) w)"
  by (induction j) (simp_all add: write_iter_winv)

lemma write_loop_winv: "winv w \<Longrightarrow> winv (write_loop k e ls w)"
proof (induction k e ls w rule: write_loop.induct)
  case (1 key entrysize lastsegment w)
  show ?case
  proof (cases "w_ptr w = []")
    case True
    then show ?thesis using 1 by simp
  next
    case False
    then have "winv (write_loop key entrysize lastsegment (write_iter key entrysize lastsegment w))"
      using 1 by (simp add: write_iter_winv)
    then show ?thesis using False by simp
  qed
qed

lemma write_loop_lt:
  "w_ptr w \<noteq> [] \<or> w_cursamp w < 2048 \<Longrightarrow> w_cursamp (write_loop k e ls w) < 2048"
proof (induction k e ls w rule: write_loop.induct)
  case (1 key entrysize lastsegment w)
  show ?case
  proof (cases "w_ptr w = []")
    case True
    then show ?thesis using 1 by simp
  next
    case False
    have "w_cursamp (write_iter key entrysize lastsegment w) < 2048"
      using "1.prems" by (rule write_iter_lt)
    then have "w_cursamp (write_loop key entrysize lastsegment (write_iter key entrysize lastsegment w)) < 2048"
      using 1 False by simp
    then show ?thesis using False by simp
  qed
qed

lemma write_start_sel:
  "w_fd (write_start fp data ls fd) = fd"
  "w_ptr (write_start fp data ls fd) =
     (if ls \<noteq> 0 \<and> data = [] then take (nat (2048 - pcmseq3_cursamp fp)) zeropad else data)"
  "w_cursamp (write_start fp data ls fd) = pcmseq3_cursamp fp"
  "w_state (write_start fp data ls fd) = segstate_of (pcmseq3_cursamp fp)"
  "w_recordwords (write_start fp data ls fd) = 0"
  "w_poscache (write_start fp data ls fd) = pcmseq3_poscache fp"
  by (simp_all add: write_start_def Let_def)

lemma write_start_winv:
  "0 \<le> pcmseq3_cursamp fp \<Longrightarrow> pcmseq3_cursamp fp \<le> 2048 \<Longrightarrow> winv (write_start fp data ls fd)"
  by (simp add: winv_def write_start_sel)

lemma write_data_cursamp:
  assumes "outfp fp = Some fd"
  shows "pcmseq3_cursamp (snd (pcmseq2_write_data fp data ls)) =
         w_cursamp (write_loop (pcmseq3_key fp) (pcmseq3_entrysize fp + int (length data)) ls
                      (write_start fp data ls fd))"
    and "outfp (snd (pcmseq2_write_data fp data ls)) \<noteq> None"
  using assms by (simp_all add: pcmseq2_write_data_def Let_def)

lemma write_data_bounds:
  assumes o: "outfp fp = Some fd" and b: "0 \<le> pcmseq3_cursamp fp" "pcmseq3_cursamp fp \<le> 2048"
  shows "0 \<le> pcmseq3_cursamp (snd (pcmseq2_write_data fp data ls))"
    and "pcmseq3_cursamp (snd (pcmseq2_write_data fp data ls)) \<le> 2048"
proof -
  have "winv (write_loop (pcmseq3_key fp) (pcmseq3_entrysize fp + int (length data)) ls
                (write_start fp data ls fd))"
    using b by (intro write_loop_winv write_start_winv)
  then show "0 \<le> pcmseq3_cursamp (snd (pcmseq2_write_data fp data ls))"
    and "pcmseq3_cursamp (snd (pcmseq2_write_data fp data ls)) \<le> 2048"
    by (simp_all add: write_data_cursamp[OF o] winv_def)
qed

lemma write_data_lt:
  assumes o: "outfp fp = Some fd" and d: "data \<noteq> [] \<or> pcmseq3_cursamp fp < 2048"
  shows "pcmseq3_cursamp (snd (pcmseq2_write_data fp data ls)) < 2048"
proof -
  have "w_ptr (write_start fp data ls fd) \<noteq> [] \<or> w_cursamp (write_start fp data ls fd) < 2048"
    using d by (cases "data = []") (simp_all add: write_start_sel)
  then have "w_cursamp (write_loop (pcmseq3_key fp) (pcmseq3_entrysize fp + int (length data)) ls
                (write_start fp data ls fd)) < 2048"
    by (rule write_loop_lt)
  then show ?thesis by (simp add: write_data_cursamp[OF o])
qed

lemma write_chunks_bounds:
  assumes "outfp fp \<noteq> None" "0 \<le> pcmseq3_cursamp fp" "pcmseq3_cursamp fp \<le> 2048"
  shows "0 \<le> pcmseq3_cursamp (write_chunks fp cs) \<and> pcmseq3_cursamp (write_chunks fp cs) \<le> 2048
       \<and> (concat (map fst cs) \<noteq> [] \<or> pcmseq3_cursamp fp < 2048 \<longrightarrow>
            pcmseq3_cursamp (write_chunks fp cs) < 2048)"
  using assms
proof (induction cs arbitrary: fp)
  case Nil
  then show ?case by simp
next
  case (Cons c cs)
  obtain data ls where c: "c = (data, ls)" by (cases c)
  obtain fd where o: "outfp fp = Some fd" using Cons.prems by auto
  let ?fp = "snd (pcmseq2_write_data fp data ls)"
  note b = write_data_bounds[OF o Cons.prems(2,3), of data ls]
  have ih: "0 \<le> pcmseq3_cursamp (write_chunks ?fp cs) \<and> pcmseq3_cursamp (write_chunks ?fp cs) \<le> 2048
       \<and> (concat (map fst cs) \<noteq> [] \<or> pcmseq3_cursamp ?fp < 2048 \<longrightarrow>
            pcmseq3_cursamp (write_chunks ?fp cs) < 2048)"
    using Cons.IH[of ?fp] write_data_cursamp(2)[OF o] b(1,2) by simp
  show ?case
  proof (cases "data \<noteq> [] \<or> pcmseq3_cursamp fp < 2048")
    case True
    then have "pcmseq3_cursamp ?fp < 2048" by (rule write_data_lt[OF o])
    then show ?thesis using ih by (simp add: c)
  next
    case False
    then show ?thesis using ih by (simp add: c)
  qed
qed

lemma segstate_of_thresholds:
  "(segstate_of c = FIRSTSEG \<longleftrightarrow> c < 1005)
   \<and> (segstate_of c = MIDDLESEG \<longleftrightarrow> 1005 \<le> c \<and> c < 2026)
   \<and> (segstate_of c = LASTSEG \<longleftrightarrow> 2026 \<le> c)"
  by (simp add: segstate_of_def)

lemma write_hdr_fields:
  assumes "outfp fp = Some fd"
  shows "pcmseq3_cursamp (snd (pcmseq2_write_hdr clk fp)) = 2048"
    and "outfp (snd (pcmseq2_write_hdr clk fp)) \<noteq> None"
    and "pcmseq3_entrysize (snd (pcmseq2_write_hdr clk fp)) = 0"
  using assms by (simp_all add: pcmseq2_write_hdr_def Let_def)

text \<open>
  C6, as the code has it. \<^verbatim>\<open>pcmseq2_write_hdr\<close> sets \<^verbatim>\<open>pcmseq3_cursamp\<close> to 2048, not to 0
  (the value that makes the first write open a segment). After any sequence of
  \<^verbatim>\<open>pcmseq2_write_data\<close> calls that follows, \<^verbatim>\<open>pcmseq3_cursamp\<close> lies in the closed range 0 to
  2048, and below 2048 as soon as a sample has been supplied. In every pass of the
  loop of a call entered with the position in that range, the position stays in the
  range and the state variable is FIRST exactly when the position is below 1005,
  MIDDLE exactly from 1005 to 2025, and LAST exactly from 2026 on.
\<close>

theorem cursamp_invariant:
  assumes "outfp fp = Some fd"
  shows "pcmseq3_cursamp (snd (pcmseq2_write_hdr clk fp)) = 2048
       \<and> 0 \<le> pcmseq3_cursamp (write_chunks (snd (pcmseq2_write_hdr clk fp)) cs)
       \<and> pcmseq3_cursamp (write_chunks (snd (pcmseq2_write_hdr clk fp)) cs) \<le> 2048
       \<and> (concat (map fst cs) \<noteq> [] \<longrightarrow>
            pcmseq3_cursamp (write_chunks (snd (pcmseq2_write_hdr clk fp)) cs) < 2048)
       \<and> (\<forall>fp' data ls fd' j.
             0 \<le> pcmseq3_cursamp fp' \<and> pcmseq3_cursamp fp' \<le> 2048 \<longrightarrow>
             (let w = (write_iter (pcmseq3_key fp') (pcmseq3_entrysize fp' + int (length data)) ls ^^ j)
                        (write_start fp' data ls fd')
              in 0 \<le> w_cursamp w \<and> w_cursamp w \<le> 2048
               \<and> (w_state w = FIRSTSEG \<longleftrightarrow> w_cursamp w < 1005)
               \<and> (w_state w = MIDDLESEG \<longleftrightarrow> 1005 \<le> w_cursamp w \<and> w_cursamp w < 2026)
               \<and> (w_state w = LASTSEG \<longleftrightarrow> 2026 \<le> w_cursamp w)))"
proof -
  let ?fp = "snd (pcmseq2_write_hdr clk fp)"
  note h = write_hdr_fields[OF assms, of clk]
  have a: "0 \<le> pcmseq3_cursamp (write_chunks ?fp cs) \<and> pcmseq3_cursamp (write_chunks ?fp cs) \<le> 2048
       \<and> (concat (map fst cs) \<noteq> [] \<or> pcmseq3_cursamp ?fp < 2048 \<longrightarrow>
            pcmseq3_cursamp (write_chunks ?fp cs) < 2048)"
    by (rule write_chunks_bounds) (simp_all add: h)
  have b: "0 \<le> w_cursamp w \<and> w_cursamp w \<le> 2048
               \<and> (w_state w = FIRSTSEG \<longleftrightarrow> w_cursamp w < 1005)
               \<and> (w_state w = MIDDLESEG \<longleftrightarrow> 1005 \<le> w_cursamp w \<and> w_cursamp w < 2026)
               \<and> (w_state w = LASTSEG \<longleftrightarrow> 2026 \<le> w_cursamp w)"
    if "0 \<le> pcmseq3_cursamp fp'" "pcmseq3_cursamp fp' \<le> 2048"
      and "w = (write_iter (pcmseq3_key fp') (pcmseq3_entrysize fp' + int (length data)) ls ^^ j)
                        (write_start fp' data ls fd')"
    for fp' data ls fd' j w
  proof -
    have "winv w" unfolding that(3) using that(1,2)
      by (intro write_passes_winv write_start_winv)
    then show ?thesis using segstate_of_thresholds[of "w_cursamp w"] by (simp add: winv_def)
  qed
  show ?thesis using h(1) a b by (simp add: Let_def)
qed

theorem cursamp_invariant_witness:
  "pcmseq3_cursamp (snd (pcmseq2_write_hdr (0, 0) (pcmseq_open_w pcm_raw ''a.pcm_seq2''))) = 2048
   \<and> 0 \<le> pcmseq3_cursamp (write_chunks
          (snd (pcmseq2_write_hdr (0, 0) (pcmseq_open_w pcm_raw ''a.pcm_seq2'')))
          [([1, 2, 3], 0), ([], 1)])
   \<and> pcmseq3_cursamp (write_chunks
          (snd (pcmseq2_write_hdr (0, 0) (pcmseq_open_w pcm_raw ''a.pcm_seq2'')))
          [([1, 2, 3], 0), ([], 1)]) < 2048"
  using cursamp_invariant[of "pcmseq_open_w pcm_raw ''a.pcm_seq2''" empty_stream "(0, 0)"
          "[([1, 2, 3], 0), ([], 1)]"]
  by (simp add: pcmseq_open_w_def empty_stream_def)

text \<open>
  The claim as stated fails right after the header: the position is 2048, which is
  neither 0 nor below 2048.
\<close>

theorem cursamp_after_hdr_counterexample:
  "pcmseq3_cursamp (snd (pcmseq2_write_hdr (0, 0) (pcmseq_open_w pcm_raw ''a.pcm_seq2''))) \<noteq> 0
   \<and> \<not> pcmseq3_cursamp (snd (pcmseq2_write_hdr (0, 0) (pcmseq_open_w pcm_raw ''a.pcm_seq2''))) < 2048"
  by (simp add: pcmseq2_write_hdr_def pcmseq_open_w_def Let_def)

section \<open>Entry headers at the public write interface\<close>

lemma write_hdr_keeps:
  assumes "outfp fp = Some fd"
  shows "flags (snd (pcmseq2_write_hdr clk fp)) = flags fp"
    and "entrystarted (snd (pcmseq2_write_hdr clk fp)) = entrystarted fp"
    and "calls (snd (pcmseq2_write_hdr clk fp)) = calls fp @ [CallHdr]"
  using assms by (simp_all add: pcmseq2_write_hdr_def Let_def)

lemma write_data_keeps:
  assumes "outfp fp = Some fd"
  shows "flags (snd (pcmseq2_write_data fp data ls)) = flags fp"
    and "entrystarted (snd (pcmseq2_write_data fp data ls)) = entrystarted fp"
    and "calls (snd (pcmseq2_write_data fp data ls)) = calls fp @ [CallData data ls]"
  using assms by (simp_all add: pcmseq2_write_data_def Let_def)

lemma log_state_snoc: "log_state (cs @ [c]) = log_step (log_state cs) c"
  by (simp add: log_state_def)

definition pub_inv :: "PCMFILE \<Rightarrow> bool" where
  "pub_inv fp \<longleftrightarrow> flags fp = O_WRONLY \<and> outfp fp \<noteq> None
                 \<and> log_state (calls fp) = Some (entrystarted fp \<noteq> 0)"

lemma pcmseq_write_calls:
  assumes "flags fp = O_WRONLY" "outfp fp = Some fd"
  shows "calls (snd (pcmseq_write clk fp buf)) =
           calls fp @ (if entrystarted fp = 0
                       then CallHdr # (if fst (pcmseq2_write_hdr clk fp) = 0 then [CallData buf 0] else [])
                       else [CallData buf 0])"
    and "entrystarted (snd (pcmseq_write clk fp buf)) = (if entrystarted fp = 0 then 1 else entrystarted fp)"
    and "flags (snd (pcmseq_write clk fp buf)) = O_WRONLY"
    and "outfp (snd (pcmseq_write clk fp buf)) \<noteq> None"
proof -
  obtain r f where hf: "pcmseq2_write_hdr clk fp = (r, f)" by (cases "pcmseq2_write_hdr clk fp")
  have f: "flags f = O_WRONLY" "entrystarted f = entrystarted fp" "calls f = calls fp @ [CallHdr]"
      "outfp f \<noteq> None"
    using write_hdr_keeps[OF assms(2), of clk] write_hdr_fields(2)[OF assms(2), of clk] assms(1)
    by (simp_all add: hf)
  obtain fd1 where o1: "outfp (f\<lparr>entrystarted := 1\<rparr>) = Some fd1" using f(4) by auto
  note k1 = write_data_keeps[OF o1, of buf 0] write_data_cursamp(2)[OF o1, of buf 0]
  note k0 = write_data_keeps[OF assms(2), of buf 0] write_data_cursamp(2)[OF assms(2), of buf 0]
  show "calls (snd (pcmseq_write clk fp buf)) =
           calls fp @ (if entrystarted fp = 0
                       then CallHdr # (if fst (pcmseq2_write_hdr clk fp) = 0 then [CallData buf 0] else [])
                       else [CallData buf 0])"
    using assms f k1 k0 by (simp add: pcmseq_write_def hf)
  show "entrystarted (snd (pcmseq_write clk fp buf)) = (if entrystarted fp = 0 then 1 else entrystarted fp)"
    using assms f k1 k0 by (simp add: pcmseq_write_def hf)
  show "flags (snd (pcmseq_write clk fp buf)) = O_WRONLY"
    using assms f k1 k0 by (simp add: pcmseq_write_def hf)
  show "outfp (snd (pcmseq_write clk fp buf)) \<noteq> None"
    using assms f k1 k0 by (simp add: pcmseq_write_def hf)
qed

lemma pcmseq_seek_calls:
  assumes "flags fp = O_WRONLY" "outfp fp = Some fd"
  shows "calls (snd (pcmseq_seek fp e)) =
           calls fp @ (if entrystarted fp \<noteq> 0 then [CallData [] 1] else [])"
    and "entrystarted (snd (pcmseq_seek fp e)) = 0"
    and "flags (snd (pcmseq_seek fp e)) = O_WRONLY"
    and "outfp (snd (pcmseq_seek fp e)) \<noteq> None"
  using assms write_data_keeps[OF assms(2), of "[]" 1] write_data_cursamp(2)[OF assms(2), of "[]" 1]
  by (simp_all add: pcmseq_seek_def Let_def)

lemma run_op_inv: "pub_inv fp \<Longrightarrow> pub_inv (run_op fp op)"
proof -
  assume i: "pub_inv fp"
  then obtain fd where o: "outfp fp = Some fd" and fl: "flags fp = O_WRONLY"
    and lg: "log_state (calls fp) = Some (entrystarted fp \<noteq> 0)"
    by (auto simp: pub_inv_def)
  show ?thesis
  proof (cases op)
    case (PubWrite clk buf)
    show ?thesis
      using pcmseq_write_calls[OF fl o, of clk buf] lg
      by (auto simp: PubWrite pub_inv_def log_state_snoc log_state_def)
  next
    case (PubSeek e)
    show ?thesis
      using pcmseq_seek_calls[OF fl o, of e] lg
      by (auto simp: PubSeek pub_inv_def log_state_snoc)
  qed
qed

lemma run_ops_inv: "pub_inv fp \<Longrightarrow> pub_inv (run_ops fp ops)"
  unfolding run_ops_def by (induction ops arbitrary: fp) (simp_all add: run_op_inv)

lemma open_w_inv: "pub_inv (pcmseq_open_w raw nm)"
  by (simp add: pub_inv_def pcmseq_open_w_def log_state_def)

lemma pcmseq_close_calls:
  assumes "flags fp = O_WRONLY" "outfp fp = Some fd"
  shows "calls (fst (pcmseq_close fp)) =
           calls fp @ (if entrystarted fp \<noteq> 0 then [CallData [] 1] else []) @ [CallClose]"
    and "outfp (fst (pcmseq_close fp)) = None"
  using assms write_data_keeps[OF assms(2), of "[]" 1] write_data_cursamp(2)[OF assms(2), of "[]" 1]
  by (auto simp: pcmseq_close_def Let_def split: option.splits)

text \<open>
  C10. On a handle opened for writing, after any run of public write and seek calls:
  the history of calls to the segment writer is in order (no samples and no closing
  call without a header written before them in the same entry), and an entry is open
  exactly when \<^verbatim>\<open>entrystarted\<close> is not 0. A further \<^verbatim>\<open>pcmseq_write\<close> writes the header first
  when \<^verbatim>\<open>entrystarted\<close> is 0 (and passes the samples on when that succeeded), and only
  passes the samples on otherwise; it leaves \<^verbatim>\<open>entrystarted\<close> set. \<^verbatim>\<open>pcmseq_seek\<close> closes
  the entry if one is open and clears \<^verbatim>\<open>entrystarted\<close>. \<^verbatim>\<open>pcmseq_close\<close> closes the entry
  if one is open and then the stream.
\<close>

theorem header_before_data:
  fixes raw :: PCMFILE and nm :: string and ops :: "pub_op list"
  defines "fp \<equiv> run_ops (pcmseq_open_w raw nm) ops"
  shows "log_state (calls fp) = Some (entrystarted fp \<noteq> 0)
       \<and> calls (snd (pcmseq_write clk fp buf)) =
           calls fp @ (if entrystarted fp = 0
                       then CallHdr # (if fst (pcmseq2_write_hdr clk fp) = 0 then [CallData buf 0] else [])
                       else [CallData buf 0])
       \<and> entrystarted (snd (pcmseq_write clk fp buf)) \<noteq> 0
       \<and> calls (snd (pcmseq_seek fp e)) =
           calls fp @ (if entrystarted fp \<noteq> 0 then [CallData [] 1] else [])
       \<and> entrystarted (snd (pcmseq_seek fp e)) = 0
       \<and> calls (fst (pcmseq_close fp)) =
           calls fp @ (if entrystarted fp \<noteq> 0 then [CallData [] 1] else []) @ [CallClose]
       \<and> log_state (calls (fst (pcmseq_close fp))) = Some False
       \<and> outfp (fst (pcmseq_close fp)) = None"
proof -
  have "pub_inv fp" unfolding fp_def by (intro run_ops_inv open_w_inv)
  then obtain fd where o: "outfp fp = Some fd" and fl: "flags fp = O_WRONLY"
    and lg: "log_state (calls fp) = Some (entrystarted fp \<noteq> 0)"
    by (auto simp: pub_inv_def)
  note w = pcmseq_write_calls[OF fl o, of clk buf]
  note s = pcmseq_seek_calls[OF fl o, of e]
  note c = pcmseq_close_calls[OF fl o]
  have "log_state (calls (fst (pcmseq_close fp))) = Some False"
    using lg by (simp add: c log_state_def)
  then show ?thesis using lg w(1,2) s(1,2) c by simp
qed

theorem header_before_data_witness:
  "log_state (calls (run_ops (pcmseq_open_w pcm_raw ''a.pcm_seq2'')
       [PubWrite (0, 0) [1, 2, 3], PubSeek 2, PubWrite (0, 0) [4]]))
     = Some (entrystarted (run_ops (pcmseq_open_w pcm_raw ''a.pcm_seq2'')
         [PubWrite (0, 0) [1, 2, 3], PubSeek 2, PubWrite (0, 0) [4]]) \<noteq> 0)
   \<and> log_state (calls (fst (pcmseq_close (run_ops (pcmseq_open_w pcm_raw ''a.pcm_seq2'')
       [PubWrite (0, 0) [1, 2, 3], PubSeek 2, PubWrite (0, 0) [4]])))) = Some False"
  using header_before_data[of pcm_raw "''a.pcm_seq2''"
          "[PubWrite (0, 0) [1, 2, 3], PubSeek 2, PubWrite (0, 0) [4]]" "(0, 0)" "[]" 1]
  by (elim conjE, intro conjI) assumption+

section \<open>Episode alignment\<close>

lemma getclusters_example:
  "getclusters \<lparr>t_toks = [1, 1, 1, 1, 1], t_pos = Suc 0\<rparr> 0
     = ({1}, 5, \<lparr>t_toks = [1, 1, 1, 1, 1], t_pos = Suc 0\<rparr>)"
  by (simp add: getclusters_def getclusters_loop.simps fscanf_d_def EOF_def)

lemma drop_noise_example: "drop_noise {1} = {1}"
  by (simp add: drop_noise_def)

text \<open>
  C9. The episodes start at 0, 100 and 250. The feature file holds one feature per
  event, the times 10, 105, 260 and 300 (after the feature count 1); the cluster file
  puts the four events into cluster 1 (after the cluster count 1). The claim expects
  the lists [10], [5] and [10, 50]. \<^verbatim>\<open>sort_unit_episode\<close> gives [10], [5] and
  [10, 50, 50]: the pass of \<^verbatim>\<open>while (rp != EOF)\<close> in which both scans fail still files
  the event left in \<^verbatim>\<open>atime\<close> and \<^verbatim>\<open>clust\<close>, so the last event is entered twice.
\<close>

theorem sort_unit_episode_last_event_twice:
  "map_option (\<lambda>uvec. uvec 1)
     (sort_unit_episode [1, 1, 1, 1, 1] [1, 10, 105, 260, 300] [0, 100, 250] 0 0)
   = Some (Some [[10], [5], [10, 50, 50]])"
  by (simp add: sort_unit_episode_def getclusters_example drop_noise_example fscanf_d_def EOF_def
        episode_loop.simps episode_pass_def advance_episode.simps Let_def)

section \<open>A failed read\<close>

definition same_dir :: "P2FILE \<Rightarrow> P2FILE \<Rightarrow> bool" where
  "same_dir p q \<longleftrightarrow>
     entry_pos_cache p = entry_pos_cache q \<and> entry_size_cache p = entry_size_cache q
     \<and> entry_sr_cache p = entry_sr_cache q \<and> entry_time_cache p = entry_time_cache q
     \<and> lastentry p = lastentry q \<and> p2_type p = p2_type q \<and> currententry p = currententry q"

lemma same_dir_refl: "same_dir p p"
  by (simp add: same_dir_def)

lemma same_dir_trans: "same_dir p q \<Longrightarrow> same_dir q r \<Longrightarrow> same_dir p r"
  by (simp add: same_dir_def)

lemma peekcontrolword_dir: "same_dir (snd (snd (peekcontrolword p))) p"
  by (simp add: peekcontrolword_def Let_def same_dir_def split: prod.splits)

lemma skipsegment_dir: "same_dir (skipsegment p) p"
  by (simp add: skipsegment_def same_dir_def)

lemma readsegment_dir: "same_dir (snd (readsegment p)) p"
  by (simp add: readsegment_def Let_def same_dir_def split: prod.splits)

lemma readentryhdr_dir: "same_dir (snd (readentryhdr p)) p"
  by (simp add: readentryhdr_def Let_def same_dir_def split: prod.splits)

lemma read_iter_Continue_dir:
  assumes "read_iter start stop r = Continue r'"
  shows "same_dir (r_p2 r') (r_p2 r) \<and> r_status r' = r_status r"
proof -
  obtain ret cw p2a where pk: "peekcontrolword (r_p2 r) = (ret, cw, p2a)"
    by (cases "peekcontrolword (r_p2 r)")
  have d1: "same_dir p2a (r_p2 r)" using peekcontrolword_dir[of "r_p2 r"] by (simp add: pk)
  obtain rc p2b where rs: "readsegment p2a = (rc, p2b)" by (cases "readsegment p2a")
  have d2: "same_dir p2b p2a" using readsegment_dir[of p2a] by (simp add: rs)
  have "(r_p2 r' = skipsegment p2a \<or> r_p2 r' = p2b) \<and> r_status r' = r_status r"
    using assms pk rs by (auto simp: read_iter_def split: if_splits option.splits)
  then show ?thesis
    using d1 d2 skipsegment_dir[of p2a] by (auto intro: same_dir_trans)
qed

lemma read_iter_Break_dir:
  assumes "read_iter start stop r = Break r'" and "r_status r' = -1"
  shows "same_dir (r_p2 r') (r_p2 r)"
proof -
  obtain ret cw p2a where pk: "peekcontrolword (r_p2 r) = (ret, cw, p2a)"
    by (cases "peekcontrolword (r_p2 r)")
  have d1: "same_dir p2a (r_p2 r)" using peekcontrolword_dir[of "r_p2 r"] by (simp add: pk)
  obtain rc p2b where rs: "readsegment p2a = (rc, p2b)" by (cases "readsegment p2a")
  have d2: "same_dir p2b p2a" using readsegment_dir[of p2a] by (simp add: rs)
  have "r_p2 r' = p2a \<or> r_p2 r' = p2b"
    using assms pk rs by (auto simp: read_iter_def split: if_splits option.splits)
  then show ?thesis
    using d1 d2 by (auto intro: same_dir_trans)
qed

lemma read_loop_dir:
  "read_loop start stop r = Some r' \<Longrightarrow> r_status r' = -1 \<Longrightarrow> same_dir (r_p2 r') (r_p2 r)"
proof (induction start stop r rule: read_loop.induct)
  case (1 start stop r)
  show ?case
  proof (cases "read_iter start stop r")
    case (Break x)
    then have "x = r'" using "1.prems"(1) by (simp add: read_loop.simps[of start stop r])
    then show ?thesis using read_iter_Break_dir[OF Break[unfolded \<open>x = r'\<close>]] "1.prems"(2) by simp
  next
    case (Continue x)
    then have "read_loop start stop x = Some r'"
      using "1.prems"(1) by (simp add: read_loop.simps[of start stop r])
    then have "same_dir (r_p2 r') (r_p2 x)" using "1.IH"[OF Continue] "1.prems"(2) by simp
    then show ?thesis using read_iter_Continue_dir[OF Continue] by (auto intro: same_dir_trans)
  next
    case Undefined
    then show ?thesis using "1.prems"(1) by (simp add: read_loop.simps[of start stop r])
  qed
qed

lemma seektoentry_ok:
  assumes "fst (pcmseq2_seektoentry p e) = 0"
  shows "snd (pcmseq2_seektoentry p e) =
           p\<lparr>p2_fp := fseek_set (entry_pos_cache p e) (p2_fp p), currententry := e\<rparr>"
  using assms by (auto simp: pcmseq2_seektoentry_def split: if_splits)

lemma fseek_set_ftell: "ftell (fseek_set (ftell f) g) = ftell f"
  by (simp add: fseek_set_def ftell_def)

lemma replicate2: "replicate 2 x = [x, x]"
  by (simp add: numeral_2_eq_2)

lemma two_entry_dir_seek:
  "pcmseq2_seektoentry two_entry_dir 2 =
     (0, two_entry_dir\<lparr>p2_fp := \<lparr>s_bytes = replicate 200 0, s_pos = 100, s_eof = False,
                                       s_err = False\<rparr>,
                          currententry := 2\<rparr>)"
  by (simp add: pcmseq2_seektoentry_def fseek_set_def two_entry_dir_def p2_calloc_def)

lemma two_entry_dir_hdr:
  "fst (readentryhdr (two_entry_dir\<lparr>p2_fp := \<lparr>s_bytes = replicate 200 0, s_pos = 100,
                                                s_eof = False, s_err = False\<rparr>,
                          currententry := 2\<rparr>)) = -1"
  by (simp add: readentryhdr_def fread_def overlay_def sub_def two_entry_dir_def p2_calloc_def
        Let_def replicate2)

lemma two_entry_dir_read:
  "\<exists>p2'. pcmseq2_read two_entry_dir 2 0 9 = Some (-1, p2', [], 0, 0) \<and> currententry p2' = 2"
proof -
  let ?a = "two_entry_dir\<lparr>p2_fp := \<lparr>s_bytes = replicate 200 0, s_pos = 100,
                                        s_eof = False, s_err = False\<rparr>,
                          currententry := 2\<rparr>"
  obtain p2b where h: "readentryhdr ?a = (-1, p2b)"
    using two_entry_dir_hdr by (cases "readentryhdr ?a") simp
  have "currententry p2b = 2"
    using readentryhdr_dir[of ?a] by (simp add: h same_dir_def)
  then show ?thesis using h by (simp add: pcmseq2_read_def two_entry_dir_seek Let_def)
qed

text \<open>
  C4, as the code has it. When \<^verbatim>\<open>pcmseq2_read\<close> returns -1 after its seek to the entry
  succeeded, the file position is the one the seek gave (the position just before the
  entry header was read), the four directory caches, \<^verbatim>\<open>lastentry\<close> and the file type are
  as before the call, both result counts are 0, and the current entry is the
  requested entry, which the seek has set: it is not restored to what it was before
  the call.
\<close>

theorem read_failure_restores:
  assumes sk: "fst (pcmseq2_seektoentry p2fp e) = 0"
      and rd: "pcmseq2_read p2fp e start stop = Some (rc, p2', buf, numwritten, entrysize)"
      and rc: "rc = -1"
  shows "ftell (p2_fp p2') = ftell (fseek_set (entry_pos_cache p2fp e) (p2_fp p2fp))
       \<and> currententry p2' = e
       \<and> entry_pos_cache p2' = entry_pos_cache p2fp
       \<and> entry_size_cache p2' = entry_size_cache p2fp
       \<and> entry_sr_cache p2' = entry_sr_cache p2fp
       \<and> entry_time_cache p2' = entry_time_cache p2fp
       \<and> lastentry p2' = lastentry p2fp
       \<and> p2_type p2' = p2_type p2fp
       \<and> numwritten = 0 \<and> entrysize = 0"
proof -
  define p2a where "p2a = p2fp\<lparr>p2_fp := fseek_set (entry_pos_cache p2fp e) (p2_fp p2fp), currententry := e\<rparr>"
  have so: "pcmseq2_seektoentry p2fp e = (0, p2a)"
    using seektoentry_ok[OF sk] sk by (cases "pcmseq2_seektoentry p2fp e") (simp add: p2a_def)
  define startpos where "startpos = ftell (p2_fp p2a)"
  obtain rc2 p2b where rh: "readentryhdr p2a = (rc2, p2b)" by (cases "readentryhdr p2a")
  have db: "same_dir p2b p2a" using readentryhdr_dir[of p2a] by (simp add: rh)
  have goal: "ftell (p2_fp q) = startpos \<and> same_dir q p2a \<Longrightarrow> numwritten = 0 \<and> entrysize = 0 \<Longrightarrow> p2' = q \<Longrightarrow> ?thesis" for q
    by (simp add: same_dir_def p2a_def startpos_def)
  show ?thesis
  proof (cases "rc2 = -1")
    case True
    then have "p2' = p2b\<lparr>p2_fp := fseek_set startpos (p2_fp p2b)\<rparr> \<and> numwritten = 0 \<and> entrysize = 0"
      using rd so rh by (simp add: pcmseq2_read_def Let_def startpos_def)
    moreover have "ftell (p2_fp (p2b\<lparr>p2_fp := fseek_set startpos (p2_fp p2b)\<rparr>)) = startpos"
      by (simp add: startpos_def fseek_set_ftell)
    moreover have "same_dir (p2b\<lparr>p2_fp := fseek_set startpos (p2_fp p2b)\<rparr>) p2a"
      using db by (simp add: same_dir_def)
    ultimately show ?thesis using goal by blast
  next
    case False
    define r0 where "r0 = \<lparr>r_p2 = p2b, r_blockstart = 0, r_buf = [], r_curentry = currententry p2a,
        r_status = -1, r_recordwords = 0\<rparr>"
    obtain r where rl: "read_loop start stop r0 = Some r"
      using rd so rh False by (auto simp: pcmseq2_read_def Let_def r0_def split: option.splits)
    define resc where "resc \<longleftrightarrow> s_eof (p2_fp (r_p2 r))
         \<or> (e = lastentry (r_p2 r) \<and> r_blockstart r > stop)
         \<or> (p2seg_recordwords (r_p2 r) \<noteq> 0 \<and> r_status r = -1)"
    have res: "\<not> resc \<and> r_status r = -1
         \<and> p2' = (r_p2 r)\<lparr>p2_fp := fseek_set startpos (p2_fp (r_p2 r))\<rparr>
         \<and> numwritten = 0 \<and> entrysize = 0"
      using rd so rh False rl rc
      by (auto simp: pcmseq2_read_def Let_def r0_def[symmetric] startpos_def resc_def split: if_splits)
    then have "same_dir (r_p2 r) (r_p2 r0)" using read_loop_dir[OF rl] by simp
    then have "same_dir (r_p2 r) p2a" using db by (auto simp: r0_def intro: same_dir_trans)
    then have "same_dir ((r_p2 r)\<lparr>p2_fp := fseek_set startpos (p2_fp (r_p2 r))\<rparr>) p2a"
      by (simp add: same_dir_def)
    moreover have "ftell (p2_fp ((r_p2 r)\<lparr>p2_fp := fseek_set startpos (p2_fp (r_p2 r))\<rparr>)) = startpos"
      by (simp add: startpos_def fseek_set_ftell)
    ultimately show ?thesis using goal res by blast
  qed
qed


theorem read_failure_restores_witness:
  "ftell (p2_fp (fst (snd (the (pcmseq2_read two_entry_dir 2 0 9))))) = 100
   \<and> currententry (fst (snd (the (pcmseq2_read two_entry_dir 2 0 9)))) = 2
   \<and> entry_pos_cache (fst (snd (the (pcmseq2_read two_entry_dir 2 0 9)))) = entry_pos_cache two_entry_dir
   \<and> lastentry (fst (snd (the (pcmseq2_read two_entry_dir 2 0 9)))) = 2"
proof -
  obtain p2' where rd: "pcmseq2_read two_entry_dir 2 0 9 = Some (-1, p2', [], 0, 0)"
    using two_entry_dir_read by blast
  have sk: "fst (pcmseq2_seektoentry two_entry_dir 2) = 0" by (simp add: two_entry_dir_seek)
  have pos: "ftell (fseek_set (entry_pos_cache two_entry_dir 2) (p2_fp two_entry_dir)) = 100"
    and le: "lastentry two_entry_dir = 2"
    by (simp_all add: two_entry_dir_def p2_calloc_def fseek_set_def ftell_def)
  show ?thesis
    using read_failure_restores[OF sk rd refl] pos le by (simp add: rd)
qed

text \<open>
  The claim as stated fails on the current entry: the directory lists a second entry at
  offset 100, where the file holds zero bytes and no header. The handle stands at entry
  1; reading entry 2 seeks, fails on the header and returns -1 with the current entry
  changed to 2.
\<close>

theorem read_failure_currententry_counterexample:
  "fst (pcmseq2_seektoentry two_entry_dir 2) = 0
   \<and> map_option fst (pcmseq2_read two_entry_dir 2 0 9) = Some (-1)
   \<and> map_option (\<lambda>r. currententry (fst (snd r))) (pcmseq2_read two_entry_dir 2 0 9) = Some 2
   \<and> currententry two_entry_dir = 1"
proof -
  obtain p2' where rd: "pcmseq2_read two_entry_dir 2 0 9 = Some (-1, p2', [], 0, 0)"
    and ce: "currententry p2' = 2"
    using two_entry_dir_read by blast
  have sk: "fst (pcmseq2_seektoentry two_entry_dir 2) = 0" by (simp add: two_entry_dir_seek)
  moreover have "currententry two_entry_dir = 1" by (simp add: two_entry_dir_def p2_calloc_def)
  ultimately show ?thesis using rd ce by simp
qed

section \<open>Locating the start of an entry from its last segment\<close>

lemma wrap32_id: "- 2147483648 \<le> x \<Longrightarrow> x < 2147483648 \<Longrightarrow> wrap32 x = x"
  by (simp add: wrap32_def)

lemma cdiv_pos: "0 \<le> a \<Longrightarrow> 0 < b \<Longrightarrow> cdiv a b = a div b"
  by (cases "a = 0") (simp_all add: cdiv_def)

lemma roundup_2048: "- (- x div 2048) = (x + 2047) div (2048::int)"
proof -
  define q m where "q = x div 2048" and "m = x mod 2048"
  have x: "x = 2048 * q + m" and m: "0 \<le> m" "m < 2048" by (simp_all add: q_def m_def)
  have l: "- x div 2048 = (if m = 0 then - q else - q - 1)"
    unfolding q_def m_def by (rule zdiv_zminus1_eq_if) simp
  show ?thesis
  proof (cases "m = 0")
    case True
    then have "x + 2047 = 2048 * q + 2047" using x by simp
    then have "(x + 2047) div 2048 = q" by (rule int_div_pos_eq) simp_all
    then show ?thesis using l True by simp
  next
    case False
    have e: "x + 2047 = 2048 * (q + 1) + (m - 1)" using x by simp
    have "0 \<le> m - 1" "m - 1 < 2048" using m False by simp_all
    with e have "(x + 2047) div 2048 = q + 1" by (rule int_div_pos_eq)
    then show ?thesis using l False by simp
  qed
qed

lemma ceiling_2048: "\<lceil>real_of_int x / 2048\<rceil> = (x + 2047) div 2048"
proof -
  have "\<lceil>real_of_int x / real_of_int 2048\<rceil> = - (- x div 2048)"
    by (rule ceiling_divide_eq_div)
  then show ?thesis by (simp add: roundup_2048)
qed


lemma entrysegments_ceiling:
  assumes "- 2047 \<le> recordwords" "recordwords \<le> 1063872512"
  shows "entrysegments_of recordwords = (recordwords + 2047) div 2048"
  using assms by (simp add: entrysegments_of_def wrap32_id cdiv_pos)

text \<open>
  The next larger number of segments gives an offset that no longer fits 32 bits.
\<close>

lemma offset_wraps_beyond:
  "wrap32 (4140 - 36 - entrysegments_of 1062330369 * 4140 - 56) = 2147482964"
  "wrap32 (4134 - 36 - entrysegments_of 1063872513 * 4134 - 54) = 2147482360"
  by (simp_all add: entrysegments_of_def wrap32_def cdiv_def)

text \<open>
  C2, as the code has it.  When the record-words field of the last segment header decodes
  to a value other than 0 and -1 that is at least -2047 and at most 1062330368 in a type 1
  file, 1063872512 in a type 2 file, the indexer computes the number of segments of the
  entry as the ceiling of recordwords / 2048 and seeks, relative to the current position,
  by segment_size - 36 - segments * segment_size - entry_header_size.  The seek lands on
  that target when the target is not negative; a negative target makes the seek fail and
  leaves the position where it was.
\<close>

theorem entry_start_arithmetic:
  assumes rw: "- 2047 \<le> recordwords"
              "recordwords \<le> (if type = 1 then 1062330368 else 1063872512)"
      and nz: "recordwords \<noteq> 0" "recordwords \<noteq> - 1"
      and fld: "wrap32 (rd32 (sub rawseghdr (if type = 1 then 32 else 30) 4)) = recordwords"
  shows "entrysegments_of recordwords = \<lceil>real_of_int recordwords / 2048\<rceil>
       \<and> idx_locate type rawseghdr fp = Some (Inr (recordwords, seek_entry_start type recordwords fp))
       \<and> (let segment_size = (if type = 1 then 4140 else 4134);
               entry_header_size = (if type = 1 then 56 else 54);
               start = ftell fp + segment_size - 36
                         - \<lceil>real_of_int recordwords / 2048\<rceil> * segment_size - entry_header_size
           in seek_entry_start type recordwords fp = fseek_set start fp
              \<and> (0 \<le> start \<longrightarrow> ftell (seek_entry_start type recordwords fp) = start)
              \<and> (start < 0 \<longrightarrow> seek_entry_start type recordwords fp = fp))"
proof -
  define k where "k = (recordwords + 2047) div 2048"
  define S :: int where "S = (if type = 1 then 4140 else 4134)"
  define H :: int where "H = (if type = 1 then 56 else 54)"
  define start where "start = ftell fp + S - 36 - k * S - H"
  have rw2: "recordwords \<le> 1063872512" using rw(2) by (simp split: if_splits)
  have es: "entrysegments_of recordwords = k" using rw(1) rw2 by (simp add: entrysegments_ceiling k_def)
  have ce: "\<lceil>real_of_int recordwords / 2048\<rceil> = k" by (simp add: ceiling_2048 k_def)
  have kb: "0 \<le> k" "k \<le> (if type = 1 then 518716 else 519469)"
    using rw by (simp_all add: k_def split: if_splits)
  have dp: "wrap32 (S - 36 - k * S - H) = S - 36 - k * S - H"
    using kb by (intro wrap32_id) (auto simp: S_def H_def split: if_splits)
  have a: "idx_locate type rawseghdr fp = Some (Inr (recordwords, seek_entry_start type recordwords fp))"
    using nz fld by (simp add: idx_locate_def Let_def)
  have "seek_entry_start type recordwords fp = fseek_cur (wrap32 (S - 36 - k * S - H)) fp"
    by (simp only: seek_entry_start_def Let_def es S_def H_def)
  also have "\<dots> = fseek_set (ftell fp + (S - 36 - k * S - H)) fp"
    by (simp only: dp fseek_cur_def)
  also have "ftell fp + (S - 36 - k * S - H) = start" by (simp add: start_def)
  finally have b: "seek_entry_start type recordwords fp = fseek_set start fp" .
  have c: "0 \<le> start \<Longrightarrow> ftell (fseek_set start fp) = start"
    and d: "start < 0 \<Longrightarrow> fseek_set start fp = fp"
    by (simp_all add: fseek_set_def ftell_def)
  show ?thesis
    unfolding Let_def ce S_def[symmetric] H_def[symmetric] start_def[symmetric]
    using es ce a b c d by simp
qed


lemma seghdr_with_field: "length field = 4 \<Longrightarrow> sub (seghdr_with field) 30 4 = field"
  by (simp add: seghdr_with_def sub_def)

theorem entry_start_arithmetic_witness:
  "entrysegments_of 3000 = 2
   \<and> idx_locate 2 (seghdr_with [0xb8, 0x0b, 0, 0]) (stream_at [] 4224)
       = Some (Inr (3000, seek_entry_start 2 3000 (stream_at [] 4224)))
   \<and> ftell (seek_entry_start 2 3000 (stream_at [] 4224)) = 0"
proof -
  have h: "- 2047 \<le> (3000::int)" "(3000::int) \<le> (if (2::int) = 1 then 1062330368 else 1063872512)"
    "(3000::int) \<noteq> 0" "(3000::int) \<noteq> - 1" by simp_all
  have fld: "wrap32 (rd32 (sub (seghdr_with [0xb8, 0x0b, 0, 0]) (if (2::int) = 1 then 32 else 30) 4))
             = 3000"
    by (simp add: seghdr_with_field rd32_def wrap32_def)
  have c: "\<lceil>real_of_int 3000 / 2048\<rceil> = 2" by (simp only: ceiling_2048)
  have p: "ftell (stream_at [] 4224) = 4224" by (simp add: ftell_def stream_at_def)
  have "entrysegments_of 3000 = 2
      \<and> idx_locate 2 (seghdr_with [0xb8, 0x0b, 0, 0]) (stream_at [] 4224)
          = Some (Inr (3000, seek_entry_start 2 3000 (stream_at [] 4224)))
      \<and> seek_entry_start 2 3000 (stream_at [] 4224) = fseek_set 0 (stream_at [] 4224)
      \<and> (0 \<le> (0::int) \<longrightarrow> ftell (seek_entry_start 2 3000 (stream_at [] 4224)) = 0)
      \<and> ((0::int) < 0 \<longrightarrow> seek_entry_start 2 3000 (stream_at [] 4224) = stream_at [] 4224)"
    using entry_start_arithmetic[OF h fld, of "stream_at [] 4224"]
    unfolding Let_def c p by (simp add: ftell_def fseek_set_def)
  then show ?thesis by blast
qed

text \<open>
  Below -2047 the sum \<^verbatim>\<open>recordwords + 2047\<close> is negative and the division of the code
  truncates towards zero: a field of -2048 gives 0 segments where the ceiling is -1, and
  the seek lands 4134 bytes before the position the ceiling formula names.
\<close>

theorem negative_recordwords_counterexample:
  "wrap32 (rd32 (sub (seghdr_with [0x00, 0xf8, 0xff, 0xff]) 30 4)) = - 2048
   \<and> entrysegments_of (- 2048) = 0
   \<and> \<lceil>real_of_int (- 2048) / 2048\<rceil> = - 1
   \<and> idx_locate 2 (seghdr_with [0x00, 0xf8, 0xff, 0xff]) (stream_at [] 36)
       = Some (Inr (- 2048, seek_entry_start 2 (- 2048) (stream_at [] 36)))
   \<and> ftell (seek_entry_start 2 (- 2048) (stream_at [] 36)) = 36 + 4134 - 36 - 0 * 4134 - 54
   \<and> ftell (seek_entry_start 2 (- 2048) (stream_at [] 36))
       \<noteq> 36 + 4134 - 36 - \<lceil>real_of_int (- 2048) / 2048\<rceil> * 4134 - 54"
proof -
  have f: "wrap32 (rd32 (sub (seghdr_with [0x00, 0xf8, 0xff, 0xff]) 30 4)) = - 2048"
    by (simp add: seghdr_with_field rd32_def wrap32_def)
  have e: "entrysegments_of (- 2048) = 0"
    by (simp add: entrysegments_of_def wrap32_def cdiv_def)
  have c: "\<lceil>real_of_int (- 2048) / 2048\<rceil> = - 1" unfolding ceiling_2048 by simp
  have l: "idx_locate 2 (seghdr_with [0x00, 0xf8, 0xff, 0xff]) (stream_at [] 36)
       = Some (Inr (- 2048, seek_entry_start 2 (- 2048) (stream_at [] 36)))"
    using f by (simp add: idx_locate_def Let_def)
  have s: "ftell (seek_entry_start 2 (- 2048) (stream_at [] 36)) = 4080"
    by (simp add: seek_entry_start_def e Let_def wrap32_def fseek_cur_def fseek_set_def ftell_def
          stream_at_def)
  show ?thesis unfolding c using f e l s by simp
qed

section \<open>Recovering an entry whose sample count is lost\<close>

text \<open>
  What the indexer's tests see of a file: whether the 36 bytes at a position pass as a
  segment header, whether the 56 bytes at a position pass as an entry header, and the
  \<^verbatim>\<open>recordwords\<close> field of the segment header at a position.
\<close>

definition seg_ok :: "int \<Rightarrow> byte list \<Rightarrow> int \<Rightarrow> bool" where
  "seg_ok type bytes p \<longleftrightarrow> 0 \<le> p \<and> \<not> bad_seghdr type (fread 36 (stream_at bytes (nat p)))"

definition ent_ok :: "int \<Rightarrow> byte list \<Rightarrow> int \<Rightarrow> bool" where
  "ent_ok type bytes p \<longleftrightarrow> 0 \<le> p \<and> \<not> bad_enthdr type (fread 56 (stream_at bytes (nat p)))"

lemma bad_seghdr_fread: "bad_seghdr type (fread 36 s) = (\<not> seg_ok type (s_bytes s) (ftell s))"
  by (simp add: seg_ok_def bad_seghdr_def fread_def stream_at_def Let_def ftell_def)

lemma bad_enthdr_fread: "bad_enthdr type (fread 56 s) = (\<not> ent_ok type (s_bytes s) (ftell s))"
  by (simp add: ent_ok_def bad_enthdr_def fread_def stream_at_def Let_def ftell_def)

lemma fread_full:
  assumes "length (take n (drop (s_pos s) (s_bytes s))) = n"
  shows "fread n s = (True, take n (drop (s_pos s) (s_bytes s)), s\<lparr>s_pos := s_pos s + n\<rparr>)"
  using assms by (simp add: fread_def Let_def)

lemma seg_ok_fread:
  assumes "seg_ok type (s_bytes s) (ftell s)"
  shows "s_bytes (snd (snd (fread 36 s))) = s_bytes s"
    and "ftell (snd (snd (fread 36 s))) = ftell s + 36"
    and "fst (snd (fread 36 s)) = take 36 (drop (s_pos s) (s_bytes s))"
  using assms
  by (auto simp: seg_ok_def bad_seghdr_def fread_def stream_at_def Let_def ftell_def split: if_splits)

lemma ent_ok_fread:
  assumes "ent_ok type (s_bytes s) (ftell s)"
  shows "s_bytes (snd (snd (fread 56 s))) = s_bytes s"
    and "ftell (snd (snd (fread 56 s))) = ftell s + 56"
  using assms
  by (auto simp: ent_ok_def bad_enthdr_def fread_def stream_at_def Let_def ftell_def split: if_splits)

lemma fread_keeps_bytes: "s_bytes (snd (snd (fread n s))) = s_bytes s"
  by (simp add: fread_def Let_def)

lemma fseek_set_bytes: "s_bytes (fseek_set off s) = s_bytes s"
  by (simp add: fseek_set_def)

lemma fseek_set_pos: "0 \<le> off \<Longrightarrow> ftell (fseek_set off s) = off"
  by (simp add: fseek_set_def ftell_def)

lemma fseek_cur_ftell: "0 \<le> ftell s + d \<Longrightarrow> ftell (fseek_cur d s) = ftell s + d"
  by (simp add: fseek_cur_def fseek_set_pos)

lemma reduce_step_props:
  assumes "0 \<le> step" "0 < S" "0 \<le> prevpos"
  shows "0 \<le> reduce_step step S prevpos \<and> reduce_step step S prevpos \<le> step
       \<and> reduce_step step S prevpos * S \<le> prevpos
       \<and> (reduce_step step S prevpos = 0 \<and> 0 < step \<longrightarrow> prevpos < S)"
  using assms
proof (induction step S prevpos rule: reduce_step.induct)
  case (1 step S prevpos)
  show ?case
  proof (cases "step > 0 \<and> step * S > prevpos")
    case True
    have c: "cdiv step 2 = step div 2" using True by (simp add: cdiv_pos)
    have r: "reduce_step step S prevpos = reduce_step (step div 2) S prevpos"
      using True c by (subst reduce_step.simps) simp
    have ih: "0 \<le> reduce_step (step div 2) S prevpos \<and> reduce_step (step div 2) S prevpos \<le> step div 2
       \<and> reduce_step (step div 2) S prevpos * S \<le> prevpos
       \<and> (reduce_step (step div 2) S prevpos = 0 \<and> 0 < step div 2 \<longrightarrow> prevpos < S)"
      using "1.IH"[OF True] True "1.prems" c by simp
    show ?thesis
    proof (cases "step div 2 = 0")
      case z: True
      then have "step = 1" using True by linarith
      then show ?thesis using ih r True z by simp
    next
      case False
      then have "0 < step div 2" using True by linarith
      then show ?thesis using ih r True by auto
    qed
  next
    case False
    then have r: "reduce_step step S prevpos = step" by (subst reduce_step.simps) auto
    show ?thesis using False "1.prems" r by auto
  qed
qed


lemma reduce_step_le: "0 \<le> step \<Longrightarrow> reduce_step step S prevpos \<le> step"
proof (induction step S prevpos rule: reduce_step.induct)
  case (1 step S prevpos)
  show ?case
  proof (cases "step > 0 \<and> step * S > prevpos")
    case True
    have c: "cdiv step 2 = step div 2" using True by (simp add: cdiv_pos)
    have "reduce_step (cdiv step 2) S prevpos \<le> cdiv step 2"
      using "1.IH"[OF True] True c by simp
    moreover have "reduce_step step S prevpos = reduce_step (cdiv step 2) S prevpos"
      using True by (subst reduce_step.simps) simp
    moreover have "step div 2 \<le> step" using True by linarith
    ultimately show ?thesis using c by linarith
  next
    case False
    then have "reduce_step step S prevpos = step" by (subst reduce_step.simps) auto
    then show ?thesis by simp
  qed
qed

text \<open>
  The looks the backward scan takes before the first segment of an entry, as numbers of
  segments before that segment. The scan stands on segment \<open>i\<close> of the entry (counted from
  0, the first segment being at \<open>P0\<close>) with the stride \<open>step\<close>; every look that falls inside
  the entry finds a segment header, and every look before it finds none.
\<close>

function scan_probes :: "int \<Rightarrow> int \<Rightarrow> int \<Rightarrow> int \<Rightarrow> int list" where
  "scan_probes S P0 i step =
     (if step \<le> 0 \<or> i < 0 \<or> reduce_step step S (P0 + i * S) \<le> 0 then []
      else if reduce_step step S (P0 + i * S) \<le> i
      then scan_probes S P0 (i - reduce_step step S (P0 + i * S)) (reduce_step step S (P0 + i * S))
      else (reduce_step step S (P0 + i * S) - i)
             # (if 0 < reduce_step step S (P0 + i * S) div 2
                then scan_probes S P0 i (reduce_step step S (P0 + i * S) div 2) else []))"
  by pat_completeness auto
termination
proof (relation "measure (\<lambda>(S, P0, i, step). nat i + nat step)", goal_cases)
  case 1
  show ?case by simp
next
  case (2 S P0 i step)
  define r where "r = reduce_step step S (P0 + i * S)"
  have "0 < r" "r \<le> i" "0 < step" using 2 by (simp_all add: r_def)
  then have "nat (i - r) + nat r < nat i + nat step" by linarith
  then show ?case by (simp add: r_def)
next
  case (3 S P0 i step)
  define r where "r = reduce_step step S (P0 + i * S)"
  have "0 < step" using 3 by simp
  then have "r \<le> step" unfolding r_def by (intro reduce_step_le) simp
  moreover have "0 < r" "0 \<le> i" using 3 by (simp_all add: r_def)
  moreover have "r div 2 < r" using \<open>0 < r\<close> by linarith
  ultimately have "nat i + nat (r div 2) < nat i + nat step" by linarith
  then show ?case by (simp add: r_def)
qed

declare scan_probes.simps [simp del]

lemma scan_loop_recovers:
  fixes P0 S :: int
  assumes S: "0 < S" and P0: "0 \<le> P0"
      and valid: "\<And>i. 0 \<le> i \<Longrightarrow> i < k \<Longrightarrow> seg_ok type bytes (P0 + i * S)"
  shows "s_bytes fp = bytes \<Longrightarrow> ftell fp = P0 + i * S \<Longrightarrow> 0 \<le> i \<Longrightarrow> i < k \<Longrightarrow> 1 \<le> step \<Longrightarrow>
         \<forall>j \<in> set (scan_probes S P0 i step). \<not> seg_ok type bytes (P0 - j * S) \<Longrightarrow>
         \<exists>fp'. scan_loop type S fp step = Some (fp', 0) \<and> s_bytes fp' = bytes \<and> ftell fp' = P0"
proof (induction "nat (i + step)" arbitrary: i step fp rule: less_induct)
  case less
  define prevpos where "prevpos = ftell fp"
  define step1 where "step1 = reduce_step step S prevpos"
  define f1 where "f1 = fseek_cur (-1 * step1 * S) fp"
  define r where "r = fread 36 f1"
  have iS: "0 \<le> i * S" using less.prems(3) S by simp
  have pp: "prevpos = P0 + i * S" "0 \<le> prevpos"
    using less.prems(2) P0 iS by (simp_all add: prevpos_def)
  have rp: "0 \<le> step1" "step1 \<le> step" "step1 * S \<le> prevpos" "step1 = 0 \<Longrightarrow> prevpos < S"
    using reduce_step_props[of step S prevpos] less.prems(5) S pp(2) by (simp_all add: step1_def)
  have s1e: "reduce_step step S (P0 + i * S) = step1" by (simp add: step1_def pp(1))
  have pr: "scan_probes S P0 i step =
      (if step1 \<le> 0 then []
       else if step1 \<le> i then scan_probes S P0 (i - step1) step1
       else (step1 - i) # (if 0 < step1 div 2 then scan_probes S P0 i (step1 div 2) else []))"
    using less.prems(3,5) by (subst scan_probes.simps) (simp add: s1e)
  have tgt: "ftell fp + (-1 * step1 * S) = P0 + (i - step1) * S"
    using pp(1) by (simp add: prevpos_def algebra_simps)
  have tgt0: "0 \<le> P0 + (i - step1) * S"
    using rp(3) pp(1) by (simp add: algebra_simps)
  have f1b: "s_bytes f1 = bytes" using less.prems(1) by (simp add: f1_def fseek_cur_bytes)
  have f1p: "ftell f1 = P0 + (i - step1) * S"
    unfolding f1_def using fseek_cur_ftell[of fp "-1 * step1 * S"] tgt tgt0 by simp
  have bad: "bad_seghdr type r = (\<not> seg_ok type bytes (P0 + (i - step1) * S))"
    by (simp add: r_def bad_seghdr_fread f1b f1p)
  have unf: "scan_loop type S fp step =
     (if bad_seghdr type r
      then (if cdiv step1 2 > 0 then scan_loop type S (fseek_set prevpos (snd (snd r))) (cdiv step1 2)
            else if cdiv step1 2 = 0 then Some (fseek_set prevpos (snd (snd r)), cdiv step1 2)
            else scan_loop type S (fseek_set prevpos (snd (snd r))) (cdiv step1 2))
      else (if step1 = 0 then Some (fseek_cur (0 - 36) (snd (snd r)), step1)
            else scan_loop type S (fseek_cur (0 - 36) (snd (snd r))) step1))"
    by (subst scan_loop.simps) (simp add: Let_def prevpos_def step1_def f1_def r_def)
  show ?case
  proof (cases "step1 \<le> i")
    case True
    then have ok: "seg_ok type bytes (P0 + (i - step1) * S)"
      using valid[of "i - step1"] rp(1) less.prems(4) by simp
    have ok1: "seg_ok type (s_bytes f1) (ftell f1)" using ok f1b f1p by simp
    define g where "g = fseek_cur (0 - 36) (snd (snd r))"
    have gb: "s_bytes g = bytes"
      using seg_ok_fread(1)[OF ok1] f1b by (simp add: g_def r_def fseek_cur_bytes)
    have gp: "ftell g = P0 + (i - step1) * S"
      unfolding g_def r_def
      using fseek_cur_ftell[of "snd (snd (fread 36 f1))" "0 - 36"] seg_ok_fread(2)[OF ok1] f1p tgt0
      by simp
    have u: "scan_loop type S fp step = (if step1 = 0 then Some (g, step1) else scan_loop type S g step1)"
      using unf bad ok by (simp add: g_def)
    show ?thesis
    proof (cases "step1 = 0")
      case z: True
      have "prevpos < S" using rp(4) z by simp
      then have "i * S < S" using pp(1) P0 by simp
      then have "i < 1" using S by simp
      then have "i = 0" using less.prems(3) by simp
      then show ?thesis using u z gb gp by simp
    next
      case False
      then have s1: "1 \<le> step1" using rp(1) by simp
      have m: "nat (i - step1 + step1) < nat (i + step)" using less.prems(3,5) by simp
      have sub: "\<forall>j \<in> set (scan_probes S P0 (i - step1) step1). \<not> seg_ok type bytes (P0 - j * S)"
        using less.prems(6) pr True s1 by simp
      have "\<exists>fp'. scan_loop type S g step1 = Some (fp', 0) \<and> s_bytes fp' = bytes \<and> ftell fp' = P0"
        using less.hyps[OF m gb gp _ _ s1 sub] True less.prems(4) rp(1) by simp
      then show ?thesis using u False by simp
    qed
  next
    case False
    then have s1: "1 \<le> step1" using less.prems(3) by simp
    have pr': "scan_probes S P0 i step =
        (step1 - i) # (if 0 < step1 div 2 then scan_probes S P0 i (step1 div 2) else [])"
      using pr False s1 by simp
    have e: "P0 + (i - step1) * S = P0 - (step1 - i) * S" by (simp add: algebra_simps)
    have nok: "\<not> seg_ok type bytes (P0 + (i - step1) * S)"
      unfolding e using less.prems(6) pr' by simp
    have c: "cdiv step1 2 = step1 div 2" using s1 by (simp add: cdiv_pos)
    define g where "g = fseek_set prevpos (snd (snd r))"
    have gb: "s_bytes g = bytes"
      by (simp add: g_def r_def fseek_set_bytes fread_keeps_bytes f1b)
    have gp: "ftell g = P0 + i * S"
      using pp by (simp add: g_def fseek_set_pos)
    have u: "scan_loop type S fp step =
        (if step1 div 2 > 0 then scan_loop type S g (step1 div 2) else Some (g, 0))"
      using unf bad nok c s1 by (simp add: g_def)
    show ?thesis
    proof (cases "step1 div 2 > 0")
      case True
      then have s2: "1 \<le> step1 div 2" by simp
      have "step1 div 2 < step1" using s1 by simp
      then have m: "nat (i + step1 div 2) < nat (i + step)" using rp(2) less.prems(3) s2 by simp
      have sub: "\<forall>j \<in> set (scan_probes S P0 i (step1 div 2)). \<not> seg_ok type bytes (P0 - j * S)"
        using less.prems(6) pr' True by simp
      have "\<exists>fp'. scan_loop type S g (step1 div 2) = Some (fp', 0) \<and> s_bytes fp' = bytes \<and> ftell fp' = P0"
        using less.hyps[OF m gb gp less.prems(3) less.prems(4) s2 sub] .
      then show ?thesis using u True by simp
    next
      case z: False
      then have "step1 = 1" using s1 by linarith
      then have "i = 0" using False less.prems(3) by simp
      then show ?thesis using u z gb gp by simp
    qed
  qed
qed

definition seg_recordwords :: "int \<Rightarrow> byte list \<Rightarrow> int \<Rightarrow> int" where
  "seg_recordwords type bytes p =
     wrap32 (rd32 (sub (fst (snd (fread 36 (stream_at bytes (nat p))))) (if type = 1 then 32 else 30) 4))"

lemma fread_got_stream:
  "0 \<le> ftell s \<Longrightarrow> fst (snd (fread n s)) = fst (snd (fread n (stream_at (s_bytes s) (nat (ftell s)))))"
  by (simp add: fread_def stream_at_def Let_def ftell_def)

lemma scantoentrystart_recovers:
  fixes E H S :: int
  assumes S: "0 < S" and E: "0 \<le> E" and H: "0 \<le> H" and k: "1 \<le> k"
      and valid: "\<And>i. 0 \<le> i \<Longrightarrow> i < k \<Longrightarrow> seg_ok type bytes (E + H + i * S)"
      and invalid: "\<forall>j \<in> set (scan_probes S (E + H) (k - 1) 256). \<not> seg_ok type bytes (E + H - j * S)"
      and fb: "s_bytes fp = bytes" and fpos: "ftell fp = E + H + (k - 1) * S"
  shows "\<exists>f. pcmseq2_scantoentrystart fp type S H = Some (0, f) \<and> s_bytes f = bytes \<and> ftell f = E"
proof -
  define r where "r = fread 36 fp"
  have ok: "seg_ok type (s_bytes fp) (ftell fp)"
    using valid[of "k - 1"] k fb fpos by simp
  have good: "\<not> bad_seghdr type r" using ok by (simp add: r_def bad_seghdr_fread)
  define g where "g = fseek_cur (0 - 36) (snd (snd r))"
  have p0: "0 \<le> ftell fp" using ok by (simp add: seg_ok_def)
  have gb: "s_bytes g = bytes"
    using seg_ok_fread(1)[OF ok] fb by (simp add: g_def r_def fseek_cur_bytes)
  have gp: "ftell g = E + H + (k - 1) * S"
    unfolding g_def r_def
    using fseek_cur_ftell[of "snd (snd (fread 36 fp))" "0 - 36"] seg_ok_fread(2)[OF ok] fpos p0
    by simp
  have EH: "0 \<le> E + H" using E H by simp
  obtain fp' where sl: "scan_loop type S g 256 = Some (fp', 0)"
      and fb': "s_bytes fp' = bytes" and fp': "ftell fp' = E + H"
    using scan_loop_recovers[of S "E + H" k type bytes g "k - 1" 256, OF S EH valid gb gp _ _ _ invalid] k
    by auto
  have res: "pcmseq2_scantoentrystart fp type S H = Some (0, fseek_cur (-1 * H) fp')"
    using good sl by (simp add: pcmseq2_scantoentrystart_def Let_def r_def[symmetric] g_def)
  have "ftell (fseek_cur (-1 * H) fp') = E"
    using fseek_cur_ftell[of fp' "-1 * H"] fp' E by simp
  then show ?thesis using res fb' by (simp add: fseek_cur_bytes)
qed

lemma idx_locate_recovers:
  fixes E H S :: int
  assumes ty: "S = (if type = 1 then 4140 else 4134)" "H = (if type = 1 then 56 else 54)"
      and E: "0 \<le> E" and k: "1 \<le> k" "k \<le> 1048575"
      and valid: "\<And>i. 0 \<le> i \<Longrightarrow> i < k \<Longrightarrow> seg_ok type bytes (E + H + i * S)"
      and invalid: "\<forall>j \<in> set (scan_probes S (E + H) (k - 1) 256). \<not> seg_ok type bytes (E + H - j * S)"
      and fb: "s_bytes fp = bytes" and fpos: "ftell fp = E + H + (k - 1) * S + 36"
      and fld: "wrap32 (rd32 (sub rawseghdr (if type = 1 then 32 else 30) 4)) \<in> {0, - 1}"
  shows "\<exists>f. idx_locate type rawseghdr fp = Some (Inr (k * 2048, f)) \<and> s_bytes f = bytes \<and> ftell f = E"
proof -
  have S: "0 < S" and H: "0 \<le> H" using ty by simp_all
  define fp1 where "fp1 = fseek_cur (0 - 36) fp"
  have kS: "0 \<le> (k - 1) * S" using k S by simp
  have b1: "s_bytes fp1 = bytes" using fb by (simp add: fp1_def fseek_cur_bytes)
  have p1: "ftell fp1 = E + H + (k - 1) * S"
    unfolding fp1_def using fseek_cur_ftell[of fp "0 - 36"] fpos E H kS by simp
  obtain f where sc: "pcmseq2_scantoentrystart fp1 type S H = Some (0, f)"
      and fb': "s_bytes f = bytes" and fe: "ftell f = E"
    using scantoentrystart_recovers[OF S E H k(1) valid invalid b1 p1] by auto
  have d: "ftell fp1 + S - ftell f - H = k * S" using p1 fe by (simp add: algebra_simps)
  have kS0: "0 \<le> k * S" using k S by simp
  have "cdiv (k * S) S = k * S div S" using kS0 S by (rule cdiv_pos)
  then have c: "cdiv (k * S) S = k" using S by simp
  have w1: "wrap32 k = k" using k by (intro wrap32_id) simp_all
  have w2: "wrap32 (k * 2048) = k * 2048" using k by (intro wrap32_id) simp_all
  have "idx_locate type rawseghdr fp
        = Some (Inr (wrap32 (wrap32 (cdiv (ftell fp1 + S - ftell f - H) S) * 2048), f))"
    using fld sc unfolding idx_locate_def Let_def ty[symmetric] fp1_def[symmetric] by auto
  then show ?thesis using d c w1 w2 fb' fe by simp
qed


lemma idx_iter_recovers:
  fixes E H S :: int
  assumes ty: "S = (if type = 1 then 4140 else 4134)" "H = (if type = 1 then 56 else 54)"
      and E: "0 \<le> E" and k: "1 \<le> k" "k \<le> 1048575"
      and cur: "0 \<le> curentry" "curentry < CACHESIZE"
      and valid: "\<And>i. 0 \<le> i \<Longrightarrow> i < k \<Longrightarrow> seg_ok type bytes (E + H + i * S)"
      and invalid: "\<forall>j \<in> set (scan_probes S (E + H) (k - 1) 256). \<not> seg_ok type bytes (E + H - j * S)"
      and pb: "s_bytes (p2_fp p2fp) = bytes" and pp: "ftell (p2_fp p2fp) = E + H + (k - 1) * S"
      and fld: "seg_recordwords type bytes (E + H + (k - 1) * S) \<in> {0, - 1}"
      and ent: "ent_ok type bytes E"
  shows "\<exists>p. idx_iter type p2fp curentry = Some (if E = 0 then IdxDone p else IdxNext p)
           \<and> entry_pos_cache p curentry = E \<and> entry_size_cache p curentry = k * 2048"
proof -
  define fp0 where "fp0 = p2_fp p2fp"
  define hdr where "hdr = fst (snd (fread 36 fp0))"
  define f1 where "f1 = snd (snd (fread 36 fp0))"
  have ok: "seg_ok type (s_bytes fp0) (ftell fp0)"
    using valid[of "k - 1"] k pb pp by (simp add: fp0_def)
  have p0: "0 \<le> ftell fp0" using ok by (simp add: seg_ok_def)
  have good: "\<not> bad_seghdr type (fread 36 fp0)" using ok by (simp add: bad_seghdr_fread)
  have b1: "s_bytes f1 = bytes" using seg_ok_fread(1)[OF ok] pb by (simp add: f1_def fp0_def)
  have p1: "ftell f1 = E + H + (k - 1) * S + 36"
    using seg_ok_fread(2)[OF ok] pp by (simp add: f1_def fp0_def)
  have "hdr = fst (snd (fread 36 (stream_at bytes (nat (E + H + (k - 1) * S)))))"
    unfolding hdr_def using fread_got_stream[OF p0, of 36] pb pp by (simp add: fp0_def)
  then have fld': "wrap32 (rd32 (sub hdr (if type = 1 then 32 else 30) 4)) \<in> {0, - 1}"
    using fld by (simp add: seg_recordwords_def)
  obtain f where loc: "idx_locate type hdr f1 = Some (Inr (k * 2048, f))"
      and fb: "s_bytes f = bytes" and fe: "ftell f = E"
    using idx_locate_recovers[OF ty E k valid invalid b1 p1 fld'] by auto
  define f2 where "f2 = snd (snd (fread 56 f))"
  define raw where "raw = fst (snd (fread 56 f))"
  have eok: "ent_ok type (s_bytes f) (ftell f)" using ent fb fe by simp
  have egood: "\<not> bad_enthdr type (fread 56 f)" using eok by (simp add: bad_enthdr_fread)
  have p2: "ftell f2 = E + 56" using ent_ok_fread(2)[OF eok] fe by (simp add: f2_def)
  have enthdr: "idx_enthdr type f = (Some (raw, f2), f2)"
    using egood by (simp add: idx_enthdr_def Let_def raw_def f2_def)
  define p2a where "p2a = p2fp\<lparr>p2_fp := f2,
        entry_pos_cache := (entry_pos_cache p2fp)(curentry := ftell f2 - 56),
        entry_size_cache := (entry_size_cache p2fp)(curentry := k * 2048),
        entry_sr_cache := (entry_sr_cache p2fp)
           (curentry := wrap32 (rd32 (sub (drop (if type = 1 then 2 else 0) raw) 50 4))),
        entry_time_cache := (entry_time_cache p2fp)
           (curentry := rd64 (sub (drop (if type = 1 then 2 else 0) raw) 30 8))\<rparr>"
  have pc: "entry_pos_cache p2a curentry = E" and sc: "entry_size_cache p2a curentry = k * 2048"
    using p2 by (simp_all add: p2a_def)
  have it: "idx_iter type p2fp curentry =
      (if entry_pos_cache p2a curentry = 0 then Some (IdxDone p2a)
       else Some (IdxNext (p2a\<lparr>p2_fp := fseek_cur (0 - (if type = 1 then 4140 else 4134) - 56) f2\<rparr>)))"
    unfolding idx_iter_def Let_def fp0_def[symmetric]
    using good loc enthdr cur by (simp add: hdr_def[symmetric] f1_def[symmetric] p2a_def)
  show ?thesis
  proof (cases "E = 0")
    case True
    then show ?thesis using it pc sc by auto
  next
    case False
    define q where "q = p2a\<lparr>p2_fp := fseek_cur (0 - (if type = 1 then 4140 else 4134) - 56) f2\<rparr>"
    have "idx_iter type p2fp curentry = Some (IdxNext q)" using it pc False by (simp add: q_def)
    moreover have "entry_pos_cache q curentry = E" "entry_size_cache q curentry = k * 2048"
      using pc sc by (simp_all add: q_def)
    ultimately show ?thesis using False by auto
  qed
qed

text \<open>
  The scan starts by testing the 36 bytes at its position, which a pass of the indexing
  loop has read and tested just before: inside a pass it does not return -1.
\<close>

lemma scan_not_failing:
  assumes "\<not> bad_seghdr type (fread 36 fp0)"
  shows "pcmseq2_scantoentrystart (fseek_cur (0 - 36) (snd (snd (fread 36 fp0)))) type S H
         \<noteq> Some (- 1, f2)"
proof -
  define g where "g = fseek_cur (0 - 36) (snd (snd (fread 36 fp0)))"
  have ok: "seg_ok type (s_bytes fp0) (ftell fp0)" using assms by (simp add: bad_seghdr_fread)
  have p0: "0 \<le> ftell fp0" by (simp add: ftell_def)
  have gb: "s_bytes g = s_bytes fp0"
    using seg_ok_fread(1)[OF ok] by (simp add: g_def fseek_cur_bytes)
  have gp: "ftell g = ftell fp0"
    unfolding g_def
    using fseek_cur_ftell[of "snd (snd (fread 36 fp0))" "0 - 36"] seg_ok_fread(2)[OF ok] p0
    by simp
  have good: "\<not> bad_seghdr type (fread 36 g)" using ok gb gp by (simp add: bad_seghdr_fread)
  have "pcmseq2_scantoentrystart g type S H \<noteq> Some (- 1, f2)"
    using good by (simp add: pcmseq2_scantoentrystart_def Let_def split: option.splits prod.splits)
  then show ?thesis unfolding g_def .
qed

lemma idx_locate_not_failing:
  assumes "\<not> bad_seghdr type (fread 36 fp0)"
  shows "idx_locate type (fst (snd (fread 36 fp0))) (snd (snd (fread 36 fp0))) \<noteq> Some (Inl f2)"
proof
  assume a: "idx_locate type (fst (snd (fread 36 fp0))) (snd (snd (fread 36 fp0))) = Some (Inl f2)"
  then have "pcmseq2_scantoentrystart (fseek_cur (0 - 36) (snd (snd (fread 36 fp0)))) type
               (if type = 1 then 4140 else 4134) (if type = 1 then 56 else 54) = Some (- 1, f2)"
    unfolding idx_locate_def Let_def
    by (auto split: if_splits option.splits prod.splits)
  then show False
    using scan_not_failing[OF assms, where S = "if type = 1 then 4140 else 4134"
        and H = "if type = 1 then 56 else 54" and ?f2.0 = f2]
    by simp
qed

text \<open>
  C5, as the code has it.  Take an entry that starts at \<open>E\<close> and has \<open>k\<close> segments, each with
  a header that passes the indexer's test, and an entry header that passes it, and assume
  that none of the positions before its first segment at which the backward scan looks
  passes the test for a segment header.  When a pass of the indexing loop with \<^verbatim>\<open>curentry\<close>
  inside the caches reads the header of the last segment and finds a \<^verbatim>\<open>recordwords\<close> field
  of 0 or -1, the backward scan returns 0 at the start of the entry, and the pass records
  \<open>E\<close> as the position of the entry and \<open>k * 2048\<close> as its number of samples.  In no pass
  that has read a header passing the test does the scan return -1, so that the indexer's
  exit for a failed scan is never taken.
\<close>

theorem corrupted_recordwords_fallback:
  fixes E H S k :: int
  assumes SH: "S = (if type = 1 then 4140 else 4134)" "H = (if type = 1 then 56 else 54)"
      and E: "0 \<le> E" and k: "1 \<le> k" "k \<le> 1048575"
      and cur: "0 \<le> curentry" "curentry < CACHESIZE"
      and valid: "\<forall>i. 0 \<le> i \<and> i < k \<longrightarrow> seg_ok type bytes (E + H + i * S)"
      and invalid: "\<forall>j \<in> set (scan_probes S (E + H) (k - 1) 256). \<not> seg_ok type bytes (E + H - j * S)"
      and pb: "s_bytes (p2_fp p2fp) = bytes" and pp: "ftell (p2_fp p2fp) = E + H + (k - 1) * S"
      and fld: "seg_recordwords type bytes (E + H + (k - 1) * S) \<in> {0, - 1}"
      and ent: "ent_ok type bytes E"
  shows "(\<exists>f. pcmseq2_scantoentrystart (p2_fp p2fp) type S H = Some (0, f) \<and> ftell f = E)
       \<and> (\<exists>p. idx_iter type p2fp curentry = Some (if E = 0 then IdxDone p else IdxNext p)
              \<and> entry_pos_cache p curentry = E \<and> entry_size_cache p curentry = k * 2048)
       \<and> (\<not> bad_seghdr type (fread 36 fp0) \<longrightarrow>
            (\<forall>f2. pcmseq2_scantoentrystart (fseek_cur (0 - 36) (snd (snd (fread 36 fp0)))) type S H
                    \<noteq> Some (- 1, f2))
            \<and> (\<forall>f2. idx_locate type (fst (snd (fread 36 fp0))) (snd (snd (fread 36 fp0)))
                    \<noteq> Some (Inl f2)))"
proof -
  have S: "0 < S" and H: "0 \<le> H" using SH by simp_all
  have v: "\<And>i. 0 \<le> i \<Longrightarrow> i < k \<Longrightarrow> seg_ok type bytes (E + H + i * S)" using valid by simp
  have a: "\<exists>f. pcmseq2_scantoentrystart (p2_fp p2fp) type S H = Some (0, f) \<and> ftell f = E"
    using scantoentrystart_recovers[OF S E H k(1) v invalid pb pp] by blast
  have b: "\<exists>p. idx_iter type p2fp curentry = Some (if E = 0 then IdxDone p else IdxNext p)
              \<and> entry_pos_cache p curentry = E \<and> entry_size_cache p curentry = k * 2048"
    by (rule idx_iter_recovers[OF SH E k cur v invalid pb pp fld ent])
  have c: "\<not> bad_seghdr type (fread 36 fp0) \<longrightarrow>
            (\<forall>f2. pcmseq2_scantoentrystart (fseek_cur (0 - 36) (snd (snd (fread 36 fp0)))) type S H
                    \<noteq> Some (- 1, f2))
            \<and> (\<forall>f2. idx_locate type (fst (snd (fread 36 fp0))) (snd (snd (fread 36 fp0)))
                    \<noteq> Some (Inl f2))"
    using scan_not_failing idx_locate_not_failing by blast
  show ?thesis using a b c by (intro conjI)
qed

subsection \<open>A file with a header-like pattern where the scan does not look\<close>

lemma len_enthdr2: "length enthdr2 = 54" by (simp add: enthdr2_def)
lemma len_seg2: "length field = 4 \<Longrightarrow> length mark = 4 \<Longrightarrow> length (seg2 field mark) = 4134"
  by (simp add: seg2_def replicate2)

lemma seghdr_with_ok: "length field = 4 \<Longrightarrow> length (seghdr_with field) = 36
    \<and> sub (seghdr_with field) 0 4 = [0x01, 0x00, 0x20, 0x33]"
  by (simp add: seghdr_with_def sub_def)

lemma probe_len: "length probe_file = 20778"
  by (simp add: probe_file_def len_enthdr2 len_seg2)

lemma probe_at_16644: "take 36 (drop 16644 probe_file) = seghdr_with [0, 0, 0, 0]"
  by (simp add: probe_file_def len_enthdr2 len_seg2) (simp add: seg2_def seghdr_with_def replicate2)

lemma probe_at_16590: "take 56 (drop 16590 probe_file) = enthdr2 @ [0x01, 0x00]"
  by (simp add: probe_file_def len_enthdr2 len_seg2) (simp add: seg2_def replicate2)

lemma probe_at_108: "take 36 (drop 108 probe_file) = [0, 0, 0, 0] @ replicate 32 0"
  by (simp add: probe_file_def len_enthdr2 len_seg2) (simp add: seg2_def enthdr2_def replicate2)

lemma probe_at_4242: "take 36 (drop 4242 probe_file) = [0x01, 0x00, 0x20, 0x33] @ replicate 32 0"
  by (simp add: probe_file_def len_enthdr2 len_seg2) (simp add: seg2_def enthdr2_def replicate2)

lemma probe_at_8376: "take 36 (drop 8376 probe_file) = [0, 0, 0, 0] @ replicate 32 0"
  by (simp add: probe_file_def len_enthdr2 len_seg2) (simp add: seg2_def enthdr2_def replicate2)

lemma probe_at_12510: "take 36 (drop 12510 probe_file) = [0, 0, 0, 0] @ replicate 32 0"
  by (simp add: probe_file_def len_enthdr2 len_seg2) (simp add: seg2_def enthdr2_def replicate2)

lemma probe_seg_16644: "seg_ok 2 probe_file 16644"
  by (simp add: seg_ok_def bad_seghdr_def fread_def stream_at_def Let_def probe_at_16644
        seghdr_with_ok)

lemma probe_seg_4242: "seg_ok 2 probe_file 4242"
  by (simp add: seg_ok_def bad_seghdr_def fread_def stream_at_def Let_def probe_at_4242 sub_def)

lemma probe_not_108: "\<not> seg_ok 2 probe_file 108"
  by (simp add: seg_ok_def bad_seghdr_def fread_def stream_at_def Let_def probe_at_108 sub_def)

lemma probe_not_8376: "\<not> seg_ok 2 probe_file 8376"
  by (simp add: seg_ok_def bad_seghdr_def fread_def stream_at_def Let_def probe_at_8376 sub_def)

lemma probe_not_12510: "\<not> seg_ok 2 probe_file 12510"
  by (simp add: seg_ok_def bad_seghdr_def fread_def stream_at_def Let_def probe_at_12510 sub_def)

lemma probe_ent_16590: "ent_ok 2 probe_file 16590"
  by (simp add: ent_ok_def bad_enthdr_def fread_def stream_at_def Let_def probe_at_16590)
     (simp add: enthdr2_def sub_def)

lemma probe_fld_16644: "seg_recordwords 2 probe_file 16644 = 0"
  by (simp add: seg_recordwords_def fread_def stream_at_def Let_def probe_at_16644 seghdr_with_ok
        seghdr_with_field rd32_def wrap32_def)

lemma probe_probes: "scan_probes 4134 16644 0 256 = [4, 2, 1]"
  by (simp add: scan_probes.simps reduce_step.simps cdiv_def)

theorem corrupted_recordwords_fallback_witness:
  "(\<exists>f. pcmseq2_scantoentrystart (stream_at probe_file 16644) 2 4134 54 = Some (0, f)
        \<and> ftell f = 16590)
   \<and> (\<exists>p. idx_iter 2 (p2_calloc (stream_at probe_file 16644)) 1 = Some (IdxNext p)
          \<and> entry_pos_cache p 1 = 16590 \<and> entry_size_cache p 1 = 2048)
   \<and> scan_probes 4134 (16590 + 54) (1 - 1) 256 = [4, 2, 1]
   \<and> seg_ok 2 probe_file (16590 + 54 - 3 * 4134)
   \<and> pcmseq2_scantoentrystart
         (fseek_cur (0 - 36) (snd (snd (fread 36 (stream_at probe_file 16644))))) 2 4134 54
       \<noteq> Some (- 1, stream_at probe_file 16644)"
proof -
  let ?p2 = "p2_calloc (stream_at probe_file 16644)"
  have h2: "(4134::int) = (if (2::int) = 1 then 4140 else 4134)" by simp
  have h3: "(54::int) = (if (2::int) = 1 then 56 else 54)" by simp
  have h4: "(0::int) \<le> 16590" by simp
  have h5: "(1::int) \<le> 1" by simp
  have h6: "(1::int) \<le> 1048575" by simp
  have c1: "(0::int) \<le> 1" by simp
  have c2: "(1::int) < CACHESIZE" by (simp add: CACHESIZE_def)
  have pr: "scan_probes 4134 (16590 + 54) (1 - 1) 256 = [4, 2, 1]"
    using probe_probes by simp
  have h7: "\<forall>i. 0 \<le> i \<and> i < 1 \<longrightarrow> seg_ok 2 probe_file (16590 + 54 + i * 4134)"
  proof (intro allI impI)
    fix i :: int assume "0 \<le> i \<and> i < 1"
    then have "i = 0" by simp
    then show "seg_ok 2 probe_file (16590 + 54 + i * 4134)" using probe_seg_16644 by simp
  qed
  have h8: "\<forall>j \<in> set (scan_probes 4134 (16590 + 54) (1 - 1) 256).
              \<not> seg_ok 2 probe_file (16590 + 54 - j * 4134)"
    unfolding pr using probe_not_108 probe_not_8376 probe_not_12510 by simp
  have h9: "s_bytes (p2_fp ?p2) = probe_file" by (simp add: p2_calloc_def stream_at_def)
  have h10: "ftell (p2_fp ?p2) = 16590 + 54 + (1 - 1) * 4134"
    by (simp add: p2_calloc_def stream_at_def ftell_def)
  have h11: "seg_recordwords 2 probe_file (16590 + 54 + (1 - 1) * 4134) \<in> {0, - 1}"
    using probe_fld_16644 by simp
  have h12: "ent_ok 2 probe_file 16590" by (rule probe_ent_16590)
  have g: "\<not> bad_seghdr 2 (fread 36 (stream_at probe_file 16644))"
    using probe_seg_16644 by (simp add: bad_seghdr_fread stream_at_def ftell_def)
  note t = corrupted_recordwords_fallback[where type = 2 and S = 4134 and H = 54 and E = 16590
      and k = 1 and bytes = probe_file and ?p2fp = ?p2 and curentry = 1
      and ?fp0.0 = "stream_at probe_file 16644",
      OF h2 h3 h4 h5 h6 c1 c2 h7 h8 h9 h10 h11 h12]
  have a: "\<exists>f. pcmseq2_scantoentrystart (stream_at probe_file 16644) 2 4134 54 = Some (0, f)
            \<and> ftell f = 16590"
    using t by (simp add: p2_calloc_def)
  have b: "\<exists>p. idx_iter 2 ?p2 1 = Some (IdxNext p)
          \<and> entry_pos_cache p 1 = 16590 \<and> entry_size_cache p 1 = 2048"
    using t by simp
  have c: "pcmseq2_scantoentrystart
         (fseek_cur (0 - 36) (snd (snd (fread 36 (stream_at probe_file 16644))))) 2 4134 54
       \<noteq> Some (- 1, stream_at probe_file 16644)"
    using t g by blast
  have d: "seg_ok 2 probe_file (16590 + 54 - 3 * 4134)" using probe_seg_4242 by simp
  show ?thesis using a b pr d c by (intro conjI)
qed


subsection \<open>A file on which the scan goes astray\<close>

lemma file_len: "length mark = 4 \<Longrightarrow> length (two_entry_file mark) = 8376"
  by (simp add: two_entry_file_def len_enthdr2 len_seg2)

lemma at_4242: "length mark = 4 \<Longrightarrow> take 36 (drop 4242 (two_entry_file mark)) = seghdr_with [0, 0, 0, 0]"
  by (simp add: two_entry_file_def len_enthdr2 len_seg2) (simp add: seg2_def seghdr_with_def replicate2)

lemma at_108: "length mark = 4 \<Longrightarrow> take 36 (drop 108 (two_entry_file mark)) = mark @ replicate 32 0"
  by (simp add: two_entry_file_def len_enthdr2 len_seg2) (simp add: seg2_def enthdr2_def replicate2)

lemma at_4188: "length mark = 4 \<Longrightarrow> take 56 (drop 4188 (two_entry_file mark)) = enthdr2 @ [0x01, 0x00]"
  by (simp add: two_entry_file_def len_enthdr2 len_seg2) (simp add: seg2_def replicate2)

lemma at_54: "length mark = 4 \<Longrightarrow> take 4 (take 56 (drop 54 (two_entry_file mark))) = [0x01, 0x00, 0x20, 0x33]"
  by (simp add: two_entry_file_def len_enthdr2 len_seg2) (simp add: seg2_def replicate2)

lemma at_110: "take 4 (take 56 (drop 110 (two_entry_file [a, b, c, d]))) = [c, d, 0, 0]"
  by (simp add: two_entry_file_def len_enthdr2 len_seg2) (simp add: seg2_def enthdr2_def replicate2)

lemma at_0: "take 56 (drop 0 (two_entry_file mark)) = enthdr2 @ [0x01, 0x00]"
  by (simp add: two_entry_file_def len_enthdr2) (simp add: seg2_def replicate2)

lemma at_54s: "length mark = 4 \<Longrightarrow> take 36 (drop 54 (two_entry_file mark)) = seghdr_with [0x00, 0x08, 0, 0]"
  by (simp add: two_entry_file_def len_enthdr2 len_seg2) (simp add: seg2_def seghdr_with_def replicate2)

lemma file_seg_4242: "length mark = 4 \<Longrightarrow> seg_ok 2 (two_entry_file mark) 4242"
  by (simp add: seg_ok_def bad_seghdr_def fread_def stream_at_def Let_def at_4242 seghdr_with_ok)

lemma file_seg_54: "length mark = 4 \<Longrightarrow> seg_ok 2 (two_entry_file mark) 54"
  by (simp add: seg_ok_def bad_seghdr_def fread_def stream_at_def Let_def at_54s seghdr_with_ok)

lemma file_ent_4188: "length mark = 4 \<Longrightarrow> ent_ok 2 (two_entry_file mark) 4188"
  by (simp add: ent_ok_def bad_enthdr_def fread_def stream_at_def Let_def at_4188)
     (simp add: enthdr2_def sub_def)

lemma file_ent_0: "ent_ok 2 (two_entry_file mark) 0"
  using at_0[of mark]
  by (simp add: ent_ok_def bad_enthdr_def fread_def stream_at_def Let_def)
     (simp add: enthdr2_def sub_def)

lemma file_fld_4242: "length mark = 4 \<Longrightarrow> seg_recordwords 2 (two_entry_file mark) 4242 = 0"
  by (simp add: seg_recordwords_def fread_def stream_at_def Let_def at_4242 seghdr_with_ok
        seghdr_with_field rd32_def wrap32_def)

lemma file_108_mark: "seg_ok 2 (two_entry_file [0x01, 0x00, 0x20, 0x33]) 108"
  by (simp add: seg_ok_def bad_seghdr_def fread_def stream_at_def Let_def at_108 sub_def)




lemma fread_at:
  "length (take n (drop p B)) = n \<Longrightarrow>
   fread n (stream_at B p) = (True, take n (drop p B), stream_at B (p + n))"
  by (simp add: fread_def stream_at_def Let_def)

lemma fseek_cur_at: "0 \<le> int p + d \<Longrightarrow> fseek_cur d (stream_at B p) = stream_at B (nat (int p + d))"
  by (simp add: fseek_cur_def fseek_set_def ftell_def stream_at_def)

lemma fseek_cur_at_neg: "int p + d < 0 \<Longrightarrow> fseek_cur d (stream_at B p) = stream_at B p"
  by (simp add: fseek_cur_def fseek_set_def ftell_def stream_at_def)

lemma fseek_set_at: "0 \<le> off \<Longrightarrow> fseek_set off (stream_at B p) = stream_at B (nat off)"
  by (simp add: fseek_set_def stream_at_def)

lemma ftell_at: "ftell (stream_at B p) = int p"
  by (simp add: ftell_def stream_at_def)

lemma bytes_at: "s_bytes (stream_at B p) = B"
  by (simp add: stream_at_def)

lemma cx_len: "length cx_file = 8376" by (simp add: cx_file_def file_len)

lemma cx_fread_4242:
  "fread 36 (stream_at cx_file 4242) = (True, take 36 (drop 4242 cx_file), stream_at cx_file 4278)"
  using fread_at[of 36 4242 cx_file] by (simp add: cx_len)

lemma cx_fread_108:
  "fread 36 (stream_at cx_file 108) = (True, take 36 (drop 108 cx_file), stream_at cx_file 144)"
  using fread_at[of 36 108 cx_file] by (simp add: cx_len)

lemma cx_good_4242: "\<not> bad_seghdr 2 (True, take 36 (drop 4242 cx_file), f)"
  by (simp add: bad_seghdr_def cx_file_def at_4242 seghdr_with_ok)

lemma cx_good_108: "\<not> bad_seghdr 2 (True, take 36 (drop 108 cx_file), f)"
  by (simp add: bad_seghdr_def cx_file_def at_108 sub_def)

lemma reduce_256: "reduce_step 256 4134 4242 = 1"
  by (simp add: reduce_step.simps cdiv_def)

lemma reduce_1: "reduce_step 1 4134 108 = 0"
  by (simp add: reduce_step.simps cdiv_def)

lemma cx_scan_loop_1: "scan_loop 2 4134 (stream_at cx_file 108) 1 = Some (stream_at cx_file 108, 0)"
  by (subst scan_loop.simps)
     (simp add: Let_def ftell_at reduce_1 fseek_cur_at cx_fread_108 cx_good_108 cdiv_def)

lemma cx_scan_loop: "scan_loop 2 4134 (stream_at cx_file 4242) 256 = Some (stream_at cx_file 108, 0)"
  by (subst scan_loop.simps)
     (simp add: Let_def ftell_at reduce_256 fseek_cur_at cx_fread_108 cx_good_108 cx_scan_loop_1)

lemma cx_scan: "pcmseq2_scantoentrystart (stream_at cx_file 4242) 2 4134 54 = Some (0, stream_at cx_file 54)"
  by (simp add: pcmseq2_scantoentrystart_def Let_def cx_fread_4242 cx_good_4242 fseek_cur_at
        cx_scan_loop)


lemma cx_hdr_4242: "take 36 (drop 4242 cx_file) = seghdr_with [0, 0, 0, 0]"
  by (simp add: cx_file_def at_4242)

lemma cx_locate:
  "idx_locate 2 (seghdr_with [0, 0, 0, 0]) (stream_at cx_file 4278) = Some (Inr (4096, stream_at cx_file 54))"
  by (simp add: idx_locate_def Let_def seghdr_with_field rd32_def wrap32_def fseek_cur_at cx_scan
        ftell_at cdiv_def)

lemma cx_fread_54:
  "fread 56 (stream_at cx_file 54) = (True, take 56 (drop 54 cx_file), stream_at cx_file 110)"
  using fread_at[of 56 54 cx_file] by (simp add: cx_len)

lemma cx_fread_110:
  "fread 56 (stream_at cx_file 110) = (True, take 56 (drop 110 cx_file), stream_at cx_file 166)"
  using fread_at[of 56 110 cx_file] by (simp add: cx_len)

lemma cx_bad_54: "bad_enthdr 2 (True, take 56 (drop 54 cx_file), f)"
  using at_54[of "[0x01, 0x00, 0x20, 0x33]"] by (simp add: bad_enthdr_def sub_def cx_file_def)

lemma cx_bad_110: "bad_enthdr 2 (True, take 56 (drop 110 cx_file), f)"
  using at_110[of "0x01" "0x00" "0x20" "0x33"] by (simp add: bad_enthdr_def sub_def cx_file_def)

lemma cx_enthdr: "idx_enthdr 2 (stream_at cx_file 54) = (None, stream_at cx_file 166)"
  by (simp add: idx_enthdr_def Let_def cx_fread_54 cx_bad_54 fseek_cur_at_neg cx_fread_110 cx_bad_110)

lemma good_seghdr_with: "length field = 4 \<Longrightarrow> \<not> bad_seghdr 2 (True, seghdr_with field, f)"
  by (simp add: bad_seghdr_def seghdr_with_ok)

lemma cx_iter:
  "p2_fp p = stream_at cx_file 4242 \<Longrightarrow>
   idx_iter 2 p 1 = Some (IdxFail (p\<lparr>p2_fp := stream_at cx_file 166\<rparr>))"
  by (simp add: idx_iter_def Let_def cx_fread_4242 good_seghdr_with cx_hdr_4242 cx_locate cx_enthdr)

lemma cx_first: "fread (Suc 0) (stream_at cx_file 0) = (True, [0x03], stream_at cx_file (Suc 0))"
  using fread_at[of 1 0 cx_file] by (simp add: cx_len) (simp add: cx_file_def two_entry_file_def enthdr2_def)

lemma cx_open: "pcmseq2_open cx_file = Some None"
proof -
  have s: "\<lparr>s_bytes = cx_file, s_pos = 0, s_eof = False, s_err = False\<rparr> = stream_at cx_file 0"
    by (simp add: stream_at_def)
  define p where "p = (p2_calloc (stream_at cx_file 0))\<lparr>p2_fp := stream_at cx_file 4242\<rparr>"
  have "idx_iter 2 p 1 = Some (IdxFail (p\<lparr>p2_fp := stream_at cx_file 166\<rparr>))"
    by (rule cx_iter) (simp add: p_def)
  then have l: "idx_loop 2 p 1 = Some (- 1, p\<lparr>p2_fp := stream_at cx_file 166\<rparr>, 1)"
    by (subst idx_loop.simps) simp
  have "pcmseq2_indexfile (p2_calloc (stream_at cx_file 0))
        = Some (- 1, p\<lparr>p2_fp := stream_at cx_file 166\<rparr>)"
    unfolding pcmseq2_indexfile_def Let_def
    using l by (simp add: p2_calloc_def fseek_set_at cx_first bytes_at cx_len p_def)
  then show ?thesis by (simp add: pcmseq2_open_def s)
qed


text \<open>
  Without the assumption on the positions at which the scan looks, the scan can stop
  elsewhere.  In the two-entry file whose first entry holds the samples \<^verbatim>\<open>0x0001\<close>,
  \<^verbatim>\<open>0x3320\<close> at indices 10 and 11, the scan for the second entry (at 4188) looks one segment
  back, at position 108, takes those samples for a segment header, returns 0 at position
  54, and the indexer gives up on the file.
\<close>

theorem fallback_scan_false_header_counterexample:
  "ent_ok 2 cx_file 0 \<and> seg_ok 2 cx_file 54 \<and> seg_recordwords 2 cx_file 54 = 2048
   \<and> ent_ok 2 cx_file 4188 \<and> seg_ok 2 cx_file 4242 \<and> seg_recordwords 2 cx_file 4242 = 0
   \<and> length cx_file = 54 + 4134 + 54 + 4134
   \<and> scan_probes 4134 (4188 + 54) 0 256 = [1] \<and> seg_ok 2 cx_file (4188 + 54 - 1 * 4134)
   \<and> map_option (\<lambda>(rc, f). (rc, ftell f)) (pcmseq2_scantoentrystart (stream_at cx_file 4242) 2 4134 54)
       = Some (0, 54)
   \<and> pcmseq2_open cx_file = Some None"
proof -
  have l4: "length [0x01, 0x00, 0x20, 0x33 :: byte] = 4" by simp
  have a: "seg_recordwords 2 cx_file 54 = 2048"
    by (simp add: seg_recordwords_def fread_def stream_at_def Let_def cx_file_def at_54s
          seghdr_with_ok seghdr_with_field rd32_def wrap32_def)
  have b: "scan_probes 4134 (4188 + 54) 0 256 = [1]"
    by (simp add: scan_probes.simps reduce_step.simps cdiv_def)
  have c: "seg_ok 2 cx_file (4188 + 54 - 1 * 4134)"
    using file_108_mark by (simp add: cx_file_def)
  show ?thesis
    using file_ent_0[of "[0x01, 0x00, 0x20, 0x33]"] file_seg_54[OF l4] file_ent_4188[OF l4]
      file_seg_4242[OF l4] file_fld_4242[OF l4] a b c cx_len cx_scan cx_open
    by (simp add: cx_file_def[symmetric] ftell_at)
qed

end
